theory Spec2Isabelle
  imports Complex_Main
begin

section \<open>SequenceViewerModel: sequence store and drag selection\<close>

text \<open>
  Embedding of \<^verbatim>\<open>sequence_viewer/sequence_viewer_model.py\<close>. Python's unbounded
  integers are \<^typ>\<open>int\<close>; \<^verbatim>\<open>Optional\<close> fields are \<^typ>\<open>'a option\<close>; every
  mutating method takes the model and returns the updated model together with its
  return value.
\<close>

record sequence_viewer_model =
  sequences :: "string list"
  max_sequence_length :: int
  selection_start_row :: "int option"
  selection_start_col :: "int option"
  current_selection_cols :: "(int \<times> int) option"

definition init_model :: sequence_viewer_model where
  "init_model = \<lparr> sequences = [], max_sequence_length = 0,
     selection_start_row = None, selection_start_col = None,
     current_selection_cols = None \<rparr>"

definition get_row_count :: "sequence_viewer_model \<Rightarrow> int" where
  "get_row_count m = int (length (sequences m))"

definition clear_selection :: "sequence_viewer_model \<Rightarrow> sequence_viewer_model" where
  "clear_selection m = m\<lparr> selection_start_row := None, selection_start_col := None,
     current_selection_cols := None \<rparr>"

definition add_sequence :: "sequence_viewer_model \<Rightarrow> string \<Rightarrow> sequence_viewer_model \<times> int" where
  "add_sequence m s =
     (let m1 = m\<lparr> sequences := sequences m @ [s] \<rparr>;
          seq_len = int (length s);
          m2 = (if seq_len > max_sequence_length m1
                then m1\<lparr> max_sequence_length := seq_len \<rparr> else m1)
      in (m2, int (length (sequences m2)) - 1))"

definition clear_sequences :: "sequence_viewer_model \<Rightarrow> sequence_viewer_model" where
  "clear_sequences m = clear_selection (m\<lparr> sequences := [], max_sequence_length := 0 \<rparr>)"

text \<open>\<^verbatim>\<open>max((len(s) for s in self._sequences), default=0)\<close>, the recomputation
  that \<^verbatim>\<open>recalc_max_sequence_length\<close> performs.\<close>

definition longest_row :: "string list \<Rightarrow> int" where
  "longest_row seqs = (if seqs = [] then 0 else Max (set (map (\<lambda>s. int (length s)) seqs)))"

definition recalc_max_sequence_length :: "sequence_viewer_model \<Rightarrow> sequence_viewer_model \<times> int" where
  "recalc_max_sequence_length m =
     (let v = longest_row (sequences m) in (m\<lparr> max_sequence_length := v \<rparr>, v))"

definition clamp_column_index :: "sequence_viewer_model \<Rightarrow> int \<Rightarrow> int option" where
  "clamp_column_index m col =
     (if max_sequence_length m \<le> 0 then None
      else Some (max 0 (min col (max_sequence_length m - 1))))"

definition start_selection :: "sequence_viewer_model \<Rightarrow> int \<Rightarrow> int \<Rightarrow> sequence_viewer_model \<times> bool" where
  "start_selection m row col =
     (let row_count = get_row_count m in
      if row_count = 0 then (clear_selection m, False)
      else if row < 0 \<or> row \<ge> row_count \<or> col < 0 then (clear_selection m, False)
      else (m\<lparr> selection_start_row := Some row, selection_start_col := Some col \<rparr>, True))"

definition update_selection ::
  "sequence_viewer_model \<Rightarrow> int \<Rightarrow> int \<Rightarrow> sequence_viewer_model \<times> (int \<times> int \<times> int \<times> int) option" where
  "update_selection m current_row current_col =
     (case (selection_start_row m, selection_start_col m) of
        (Some start_row, Some start_col) \<Rightarrow>
          (case (clamp_column_index m start_col, clamp_column_index m current_col) of
             (Some clamped_start_col, Some clamped_current_col) \<Rightarrow>
               (let row_count = get_row_count m in
                if row_count = 0 then (clear_selection m, None)
                else
                  (let row_start = max 0 (min start_row current_row);
                       row_end = min (row_count - 1) (max start_row current_row);
                       col_start = min clamped_start_col clamped_current_col;
                       col_end = max clamped_start_col clamped_current_col;
                       m' = (if col_start \<ge> 0 \<and> col_end \<ge> 0
                             then m\<lparr> current_selection_cols := Some (col_start, col_end) \<rparr>
                             else m\<lparr> current_selection_cols := None \<rparr>)
                   in (m', Some (row_start, row_end, col_start, col_end))))
           | _ \<Rightarrow> (clear_selection m, None))
      | _ \<Rightarrow> (m, None))"

text \<open>A call of one of the model's public mutators, and a run of such calls on a fresh
  model: the states the class can be in.\<close>

datatype model_call =
    Add_sequence string
  | Clear_sequences
  | Clear_selection
  | Start_selection int int
  | Update_selection int int

fun model_step :: "sequence_viewer_model \<Rightarrow> model_call \<Rightarrow> sequence_viewer_model" where
  "model_step m (Add_sequence s) = fst (add_sequence m s)"
| "model_step m Clear_sequences = clear_sequences m"
| "model_step m Clear_selection = clear_selection m"
| "model_step m (Start_selection row col) = fst (start_selection m row col)"
| "model_step m (Update_selection row col) = fst (update_selection m row col)"

definition model_run :: "model_call list \<Rightarrow> sequence_viewer_model" where
  "model_run calls = foldl model_step init_model calls"

text \<open>The range the specification describes for \<^verbatim>\<open>update(row, col)\<close>: the rows and
  columns are the minimum and maximum of the anchor as recorded and the clamped current
  position.\<close>

definition spec_update_range ::
  "sequence_viewer_model \<Rightarrow> int \<Rightarrow> int \<Rightarrow> int \<Rightarrow> int \<Rightarrow> int \<times> int \<times> int \<times> int" where
  "spec_update_range m anchor_row anchor_col row col =
     (let col' = max 0 (min col (max_sequence_length m - 1));
          row' = max 0 (min row (get_row_count m - 1))
      in (min anchor_row row', max anchor_row row', min anchor_col col', max anchor_col col'))"

text \<open>What every state reached by the public mutators satisfies: the cached length is the
  longest row, and a recorded anchor lies on an existing row at a non-negative column.\<close>

definition model_inv :: "sequence_viewer_model \<Rightarrow> bool" where
  "model_inv m \<longleftrightarrow>
     max_sequence_length m = longest_row (sequences m) \<and>
     (\<forall>a. selection_start_row m = Some a \<longrightarrow> 0 \<le> a \<and> a < get_row_count m) \<and>
     (\<forall>c. selection_start_col m = Some c \<longrightarrow> 0 \<le> c)"

section \<open>Python numerics\<close>

text \<open>
  Python floats are modelled as exact reals. \<^verbatim>\<open>round\<close> on a float rounds half to
  even; \<^verbatim>\<open>int\<close> on a float truncates toward zero; \<^verbatim>\<open>10 ** e\<close> with an integer
  exponent is a power of ten for \<open>e \<ge> 0\<close> and the reciprocal of one for \<open>e < 0\<close>.
\<close>

definition py_round :: "real \<Rightarrow> int" where
  "py_round x =
     (let f = \<lfloor>x\<rfloor>; d = x - of_int f in
      if d < 1/2 then f else if d > 1/2 then f + 1 else if even f then f else f + 1)"

definition py_int :: "real \<Rightarrow> int" where
  "py_int x = (if x \<ge> 0 then \<lfloor>x\<rfloor> else \<lceil>x\<rceil>)"

definition py_pow10 :: "int \<Rightarrow> real" where
  "py_pow10 e = (if e \<ge> 0 then 10 ^ nat e else 1 / 10 ^ nat (- e))"

text \<open>\<^verbatim>\<open>int(math.floor(math.log10(x)))\<close>; every call site has \<open>x > 0\<close>.\<close>

definition floor_log10 :: "real \<Rightarrow> int" where
  "floor_log10 x = \<lfloor>log 10 x\<rfloor>"

section \<open>SequenceItemModel: zoom-dependent level of detail\<close>

text \<open>
  Embedding of \<^verbatim>\<open>graphics/sequence_item/sequence_item_model.py\<close>. Display modes
  are the strings the class uses.
\<close>

definition TEXT_MODE :: string where "TEXT_MODE = ''text''"
definition BOX_MODE :: string where "BOX_MODE = ''box''"
definition LINE_MODE :: string where "LINE_MODE = ''line''"

definition TEXT_BOX_THRESHOLD :: real where "TEXT_BOX_THRESHOLD = 8.0"
definition BOX_LINE_THRESHOLD :: real where "BOX_LINE_THRESHOLD = 5.0"

record sequence_item_model =
  it_sequence :: string
  it_length :: int
  it_char_width :: real
  it_char_height :: int
  it_default_char_width :: real
  it_selection_range :: "(int \<times> int) option"
  it_base_font_size :: real
  it_display_mode :: string
  it_current_font_size :: real
  it_box_height :: real
  it_line_height :: real
  it_lod_max_mode :: "string option"

text \<open>The two decision chains of \<^verbatim>\<open>_update_display_state\<close>: the font size snapped
  from the zoom ratio, and the display mode chosen from the font size.\<close>

definition font_size_for_scale :: "real \<Rightarrow> real \<Rightarrow> real" where
  "font_size_for_scale base_font_size scale =
     (if scale \<ge> 1.8 then 12.0
      else if scale \<ge> 1.2 then 10.0
      else if scale \<ge> 0.7 then 8.0
      else max 1.0 (base_font_size * scale))"

definition display_mode_for_font :: "real \<Rightarrow> string" where
  "display_mode_for_font current_font_size =
     (if current_font_size \<ge> TEXT_BOX_THRESHOLD then TEXT_MODE
      else if current_font_size \<ge> BOX_LINE_THRESHOLD then BOX_MODE
      else LINE_MODE)"

definition update_display_state :: "sequence_item_model \<Rightarrow> sequence_item_model" where
  "update_display_state m =
     (let m1 = (if it_default_char_width m \<le> 0 then m\<lparr> it_default_char_width := 12.0 \<rparr> else m);
          cw = max (it_char_width m1) 0.001;
          base_cw = max (it_default_char_width m1) 0.001;
          scale = cw / base_cw;
          snapped_size = font_size_for_scale (it_base_font_size m1) scale;
          m2 = m1\<lparr> it_current_font_size := snapped_size \<rparr>;
          m3 = m2\<lparr> it_display_mode := display_mode_for_font (it_current_font_size m2) \<rparr>;
          box_reference_height = min (real_of_int (it_char_height m3) * 0.7) (it_current_font_size m3)
      in m3\<lparr> it_box_height := max box_reference_height 1.0,
              it_line_height := real_of_int (it_char_height m3) * 0.3 \<rparr>)"

definition init_item :: "string \<Rightarrow> real \<Rightarrow> real \<Rightarrow> sequence_item_model" where
  "init_item sequence char_width char_height =
     (let cw = max char_width 0.001;
          ch = max 1 (py_round char_height)
      in update_display_state
           \<lparr> it_sequence = sequence, it_length = int (length sequence),
             it_char_width = cw, it_char_height = ch,
             it_default_char_width = cw, it_selection_range = None,
             it_base_font_size = real_of_int ch * 0.6,
             it_display_mode = TEXT_MODE,
             it_current_font_size = real_of_int ch * 0.6,
             it_box_height = real_of_int ch * 0.7,
             it_line_height = real_of_int ch * 0.3,
             it_lod_max_mode = None \<rparr>)"

definition set_char_width :: "sequence_item_model \<Rightarrow> real \<Rightarrow> sequence_item_model" where
  "set_char_width m new_width = update_display_state (m\<lparr> it_char_width := max new_width 0.001 \<rparr>)"

definition mode_order :: "string \<Rightarrow> int" where
  "mode_order mode = (if mode = TEXT_MODE then 0 else if mode = BOX_MODE then 1 else 2)"

definition set_lod_max_mode :: "sequence_item_model \<Rightarrow> string option \<Rightarrow> sequence_item_model" where
  "set_lod_max_mode m mode =
     (if mode \<notin> {None, Some TEXT_MODE, Some BOX_MODE, Some LINE_MODE} then m
      else m\<lparr> it_lod_max_mode := mode \<rparr>)"

definition get_effective_mode :: "sequence_item_model \<Rightarrow> string" where
  "get_effective_mode m =
     (let base_mode = it_display_mode m in
      case it_lod_max_mode m of
        None \<Rightarrow> base_mode
      | Some lod_max \<Rightarrow>
          if mode_order base_mode < mode_order lod_max then lod_max else base_mode)"

text \<open>The rank of a mode in the specification's order Text > Box > Line.\<close>

definition detail_rank :: "string \<Rightarrow> nat" where
  "detail_rank mode = (if mode = TEXT_MODE then 2 else if mode = BOX_MODE then 1 else 0)"


section \<open>SequenceViewerView: zoom geometry\<close>

text \<open>
  Embedding of \<^verbatim>\<open>sequence_viewer/sequence_viewer_view.py\<close>. The Qt objects the
  view reads and writes are fields of the state: the scene rectangle, the viewport width,
  the horizontal scroll bar's value, and the zoom animation (running flag, start, end and
  current value, duration and current time in milliseconds; a fresh Qt animation lasts 250
  ms and stands at time 0). A graphics item is represented by its model.
\<close>

record sequence_viewer_view =
  v_char_width :: real
  v_char_height :: int
  v_trailing_padding_line_px :: real
  v_trailing_padding_text_px :: real
  v_max_sequence_length :: int
  v_sequence_items :: "sequence_item_model list"
  v_scene_width :: real
  v_scene_height :: real
  v_viewport_width :: int
  v_hbar_value :: int
  v_anim_running :: bool
  v_anim_current_value :: "real option"
  v_anim_start_value :: "real option"
  v_anim_end_value :: "real option"
  v_anim_duration :: int
  v_anim_current_time :: int
  v_zoom_center_nt :: "real option"
  v_zoom_view_width_px :: "real option"

text \<open>\<^verbatim>\<open>SequenceGraphicsItem.set_char_width\<close>: the item ignores a change below
  \<open>0.0001\<close> and otherwise hands the width to its model.\<close>

definition gi_set_char_width :: "sequence_item_model \<Rightarrow> real \<Rightarrow> sequence_item_model" where
  "gi_set_char_width it new_width =
     (let nw = (if new_width \<le> 0 then 0.001 else new_width) in
      if \<bar>nw - it_char_width it\<bar> < 0.0001 then it else set_char_width it nw)"

definition current_trailing_padding :: "sequence_viewer_view \<Rightarrow> real" where
  "current_trailing_padding v =
     (case v_sequence_items v of
        [] \<Rightarrow> v_trailing_padding_text_px v
      | first_item # _ \<Rightarrow>
          if it_display_mode first_item = LINE_MODE then v_trailing_padding_line_px v
          else v_trailing_padding_text_px v)"

definition update_scene_rect :: "sequence_viewer_view \<Rightarrow> sequence_viewer_view" where
  "update_scene_rect v =
     (if v_sequence_items v = []
      then v\<lparr> v_scene_width := 0, v_scene_height := 0, v_max_sequence_length := 0 \<rparr>
      else
        (let max_len = Max (set (map (\<lambda>it. int (length (it_sequence it))) (v_sequence_items v)));
             v1 = v\<lparr> v_max_sequence_length := max_len \<rparr>;
             trailing_padding = current_trailing_padding v1
         in v1\<lparr> v_scene_width := real_of_int max_len * v_char_width v1 + trailing_padding,
                 v_scene_height :=
                   real_of_int (int (length (v_sequence_items v1)) * v_char_height v1) \<rparr>))"

definition init_view :: "real \<Rightarrow> real \<Rightarrow> int \<Rightarrow> sequence_viewer_view" where
  "init_view char_width char_height viewport_width =
     \<lparr> v_char_width = char_width, v_char_height = py_round char_height,
       v_trailing_padding_line_px = 80.0, v_trailing_padding_text_px = 30.0,
       v_max_sequence_length = 0, v_sequence_items = [],
       v_scene_width = 0, v_scene_height = 0,
       v_viewport_width = viewport_width, v_hbar_value = 0,
       v_anim_running = False, v_anim_current_value = None,
       v_anim_start_value = None, v_anim_end_value = None, v_anim_duration = 250,
       v_anim_current_time = 0,
       v_zoom_center_nt = None, v_zoom_view_width_px = None \<rparr>"

definition add_sequence_item :: "sequence_viewer_view \<Rightarrow> string \<Rightarrow> sequence_viewer_view" where
  "add_sequence_item v sequence_string =
     (let item = init_item sequence_string (v_char_width v) (real_of_int (v_char_height v))
      in update_scene_rect (v\<lparr> v_sequence_items := v_sequence_items v @ [item] \<rparr>))"

definition effective_char_width :: "sequence_viewer_view \<Rightarrow> real" where
  "effective_char_width v =
     (case (if v_anim_running v then v_anim_current_value v else None) of
        Some current_value \<Rightarrow> current_value
      | None \<Rightarrow>
          (case v_sequence_items v of
             first_item # _ \<Rightarrow> it_char_width first_item
           | [] \<Rightarrow> v_char_width v))"

definition compute_min_char_width :: "sequence_viewer_view \<Rightarrow> real" where
  "compute_min_char_width v =
     (if v_sequence_items v = [] then v_char_width v
      else if v_max_sequence_length v \<le> 0 then v_char_width v
      else if v_viewport_width v \<le> 0 then v_char_width v
      else
        (let trailing_padding = max (v_trailing_padding_line_px v) (current_trailing_padding v);
             available_width = real_of_int (v_viewport_width v) - trailing_padding
         in if available_width \<le> 0 then 0.000001
            else max (available_width / real_of_int (v_max_sequence_length v)) 0.000001))"

text \<open>The scroll position \<^verbatim>\<open>_recenter_horizontally\<close> aims at, once the view width and
  the scene width are known to be positive.\<close>

definition recenter_ideal_left :: "sequence_viewer_view \<Rightarrow> real \<Rightarrow> real \<Rightarrow> real" where
  "recenter_ideal_left v center_nt view_width_px =
     (let c = (if v_max_sequence_length v > 0
               then max 0.0 (min center_nt (real_of_int (v_max_sequence_length v)))
               else center_nt);
          cw = effective_char_width v;
          center_x = c * cw;
          ideal_left = center_x - view_width_px / 2.0;
          max_left = max 0.0 (v_scene_width v - view_width_px)
      in max 0.0 (min ideal_left max_left))"

definition recenter_horizontally :: "sequence_viewer_view \<Rightarrow> real \<Rightarrow> real \<Rightarrow> sequence_viewer_view" where
  "recenter_horizontally v center_nt view_width_px0 =
     (let view_width_px = (if view_width_px0 \<le> 0 then real_of_int (v_viewport_width v)
                           else view_width_px0)
      in if view_width_px \<le> 0 then v
         else if v_scene_width v \<le> 0 then v
         else
           (let ideal_left = recenter_ideal_left v center_nt view_width_px;
                current_left = real_of_int (v_hbar_value v)
            in if \<bar>ideal_left - current_left\<bar> < 0.5 then v
               else v\<lparr> v_hbar_value := py_round ideal_left \<rparr>))"

definition apply_char_width ::
  "sequence_viewer_view \<Rightarrow> real \<Rightarrow> real option \<Rightarrow> real option \<Rightarrow> sequence_viewer_view" where
  "apply_char_width v new_char_width center_nt view_width_px0 =
     (let view_width_px = (case view_width_px0 of
                             None \<Rightarrow> real_of_int (v_viewport_width v) | Some w \<Rightarrow> w)
      in if \<bar>new_char_width - v_char_width v\<bar> < 0.0001 \<and> center_nt = None then v
         else
           (let items = map (\<lambda>it. gi_set_char_width it new_char_width) (v_sequence_items v);
                applied_width = (case items of [] \<Rightarrow> new_char_width
                                 | first_item # _ \<Rightarrow> it_char_width first_item);
                v1 = update_scene_rect
                       (v\<lparr> v_sequence_items := items, v_char_width := applied_width \<rparr>)
            in case center_nt of
                 None \<Rightarrow> v1
               | Some c \<Rightarrow> recenter_horizontally v1 c view_width_px))"

definition on_zoom_value_changed :: "sequence_viewer_view \<Rightarrow> real \<Rightarrow> sequence_viewer_view" where
  "on_zoom_value_changed v new_char_width =
     (case (v_zoom_center_nt v, v_zoom_view_width_px v) of
        (Some c, Some w) \<Rightarrow> apply_char_width v new_char_width (Some c) (Some w)
      | _ \<Rightarrow> v)"

text \<open>
  The animation is a Qt \<^verbatim>\<open>QVariantAnimation\<close> with the easing curve
  \<^verbatim>\<open>OutCubic\<close>, connected to \<^verbatim>\<open>_on_zoom_value_changed\<close>. Whenever Qt
  recomputes the animation's current value (after a key value or the duration is set, and
  at every change of the current time) and start and end value are both set, it
  interpolates between them at the eased progress, stores the result as the current value
  and, if the value has changed, emits \<^verbatim>\<open>valueChanged\<close>: the slot runs at once, inside
  the call. \<^verbatim>\<open>start\<close> rewinds a stopped animation to time 0 and makes it run; the
  animation timer then sets the current time, and the animation stops when the time
  reaches the duration. The scroll bar is its integer value; \<^verbatim>\<open>setValue\<close> stores the
  value it is given.
\<close>

definition zoom_animation_frame :: "sequence_viewer_view \<Rightarrow> real \<Rightarrow> sequence_viewer_view" where
  "zoom_animation_frame v new_value =
     on_zoom_value_changed (v\<lparr> v_anim_current_value := Some new_value \<rparr>) new_value"

definition out_cubic :: "real \<Rightarrow> real" where
  "out_cubic t = (t - 1) ^ 3 + 1"

definition anim_progress :: "sequence_viewer_view \<Rightarrow> real" where
  "anim_progress v =
     out_cubic (if v_anim_duration v = 0 then 1
                else real_of_int (v_anim_current_time v) / real_of_int (v_anim_duration v))"

definition anim_recalculate :: "sequence_viewer_view \<Rightarrow> sequence_viewer_view" where
  "anim_recalculate v =
     (case (v_anim_start_value v, v_anim_end_value v) of
        (Some start_value, Some end_value) \<Rightarrow>
          (let new_value = start_value + (end_value - start_value) * anim_progress v
           in if v_anim_current_value v = Some new_value then v
              else zoom_animation_frame v new_value)
      | _ \<Rightarrow> v)"

definition anim_set_duration :: "sequence_viewer_view \<Rightarrow> int \<Rightarrow> sequence_viewer_view" where
  "anim_set_duration v msecs =
     (if v_anim_duration v = msecs then v
      else anim_recalculate (v\<lparr> v_anim_duration := msecs \<rparr>))"

definition anim_set_start_value :: "sequence_viewer_view \<Rightarrow> real \<Rightarrow> sequence_viewer_view" where
  "anim_set_start_value v x = anim_recalculate (v\<lparr> v_anim_start_value := Some x \<rparr>)"

definition anim_set_end_value :: "sequence_viewer_view \<Rightarrow> real \<Rightarrow> sequence_viewer_view" where
  "anim_set_end_value v x = anim_recalculate (v\<lparr> v_anim_end_value := Some x \<rparr>)"

definition anim_start :: "sequence_viewer_view \<Rightarrow> sequence_viewer_view" where
  "anim_start v =
     (if v_anim_running v then v
      else anim_recalculate (v\<lparr> v_anim_current_time := 0, v_anim_running := True \<rparr>))"

text \<open>The animation timer moving a running animation to \<open>msecs\<close> after its start.\<close>

definition anim_tick :: "sequence_viewer_view \<Rightarrow> int \<Rightarrow> sequence_viewer_view" where
  "anim_tick v msecs =
     (if \<not> v_anim_running v then v
      else
        (let t = min (v_anim_duration v) (max msecs 0);
             v1 = anim_recalculate (v\<lparr> v_anim_current_time := t \<rparr>)
         in if t = v_anim_duration v1 then v1\<lparr> v_anim_running := False \<rparr> else v1))"


definition start_zoom_animation ::
  "sequence_viewer_view \<Rightarrow> real \<Rightarrow> real \<Rightarrow> real option \<Rightarrow> sequence_viewer_view" where
  "start_zoom_animation v target_char_width center_nt view_width_px0 =
     (let view_width_px = (case view_width_px0 of
                             None \<Rightarrow> real_of_int (v_viewport_width v) | Some w \<Rightarrow> w);
          current_char_width = effective_char_width v
      in if \<bar>target_char_width - current_char_width\<bar> < 0.0001
           then apply_char_width v target_char_width (Some center_nt) (Some view_width_px)
         else if v_anim_running v
           then anim_set_end_value (v\<lparr> v_zoom_view_width_px := Some view_width_px \<rparr>)
                  target_char_width
         else
           (let v1 = v\<lparr> v_zoom_center_nt := Some center_nt,
                         v_zoom_view_width_px := Some view_width_px \<rparr>;
                v2 = anim_set_duration v1 180;
                v3 = anim_set_start_value v2 current_char_width;
                v4 = anim_set_end_value v3 target_char_width
            in anim_start v4))"



section \<open>SequenceViewerController: wheel zoom\<close>

text \<open>
  Embedding of \<^verbatim>\<open>handle_wheel_event\<close> of
  \<^verbatim>\<open>features/sequence_viewer/sequence_viewer_controller.py\<close> and of the view's
  \<^verbatim>\<open>wheelEvent\<close>. The controller's own state is the selection flag and the zoom
  streak; the model and the view it talks to are passed beside it. A wheel event carries
  whether the Ctrl modifier is held, the vertical angle delta and the pointer's x.
\<close>

record controller_state =
  c_is_selecting :: bool
  c_wheel_zoom_streak_dir :: "int option"
  c_wheel_zoom_streak_len :: int

record wheel_event =
  ev_ctrl_modifier :: bool
  ev_angle_delta_y :: int
  ev_pos_x :: int

definition wheel_zoom_base_factor :: real where "wheel_zoom_base_factor = 1.22"
definition wheel_zoom_accel_factor :: real where "wheel_zoom_accel_factor = 1.06"

definition init_controller :: controller_state where
  "init_controller = \<lparr> c_is_selecting = False, c_wheel_zoom_streak_dir = None,
     c_wheel_zoom_streak_len = 0 \<rparr>"

definition get_selection_center_nt :: "sequence_viewer_model \<Rightarrow> real option" where
  "get_selection_center_nt m =
     (case current_selection_cols m of
        None \<Rightarrow> None
      | Some (s0, e0) \<Rightarrow>
          if max_sequence_length m \<le> 0 then None
          else
            (let (s, e) = (if s0 > e0 then (e0, s0) else (s0, e0));
                 center_nt = real_of_int (s + e + 1) / 2.0
             in Some (max 0.0 (min center_nt (real_of_int (max_sequence_length m))))))"

text \<open>The zoom factor and the clamp of \<^verbatim>\<open>handle_wheel_event\<close>: from the streak
  length after this event, the signed number of notches, the direction and the current
  width to the target width.\<close>

definition wheel_target_char_width ::
  "sequence_viewer_view \<Rightarrow> int \<Rightarrow> real \<Rightarrow> int \<Rightarrow> real \<Rightarrow> real" where
  "wheel_target_char_width v streak_len steps direction current_cw =
     (let streak_boost = wheel_zoom_accel_factor ^ nat (max 0 (streak_len - 1));
          per_step_factor = wheel_zoom_base_factor * streak_boost;
          magnitude_factor = per_step_factor powr \<bar>steps\<bar>;
          factor = (if direction > 0 then magnitude_factor else 1.0 / magnitude_factor);
          target_cw = current_cw * factor;
          min_char_width = compute_min_char_width v;
          max_char_width = 90.0
      in max min_char_width (min target_cw max_char_width))"

text \<open>The pivot of the zoom: the centre of the selection, or else the content position
  under the pointer.\<close>

definition wheel_pivot_nt ::
  "sequence_viewer_model \<Rightarrow> sequence_viewer_view \<Rightarrow> wheel_event \<Rightarrow> real \<Rightarrow> real" where
  "wheel_pivot_nt m v ev current_cw =
     (case get_selection_center_nt m of
        Some c \<Rightarrow> c
      | None \<Rightarrow>
          (let old_left_px = real_of_int (v_hbar_value v);
               cursor_x = real_of_int (ev_pos_x ev);
               scene_x = old_left_px + cursor_x
           in scene_x / current_cw))"

definition handle_wheel_event ::
  "controller_state \<Rightarrow> sequence_viewer_model \<Rightarrow> sequence_viewer_view \<Rightarrow> wheel_event
     \<Rightarrow> controller_state \<times> sequence_viewer_view \<times> bool" where
  "handle_wheel_event cs m v ev =
     (if \<not> ev_ctrl_modifier ev then (cs, v, False)
      else
        (let delta = ev_angle_delta_y ev in
         if delta = 0 \<or> v_sequence_items v = [] then (cs, v, True)
         else
           (let steps = real_of_int delta / 120.0;
                direction = (if steps > 0 then 1 else - 1 :: int);
                cs1 = (if c_wheel_zoom_streak_dir cs = Some direction
                       then cs\<lparr> c_wheel_zoom_streak_len := c_wheel_zoom_streak_len cs + 1 \<rparr>
                       else cs\<lparr> c_wheel_zoom_streak_dir := Some direction,
                               c_wheel_zoom_streak_len := 1 \<rparr>);
                view_width_px = real_of_int (v_viewport_width v)
            in if view_width_px \<le> 0 then (cs1, v, True)
               else
                 (let current_cw0 = effective_char_width v;
                      current_cw = (if current_cw0 \<le> 0 then max (v_char_width v) 0.001
                                    else current_cw0);
                      center_nt = wheel_pivot_nt m v ev current_cw;
                      target_cw = wheel_target_char_width v (c_wheel_zoom_streak_len cs1)
                                    steps direction current_cw
                  in if \<bar>target_cw - current_cw\<bar> < 0.0001 then (cs1, v, True)
                     else (cs1,
                           start_zoom_animation v target_cw center_nt (Some view_width_px),
                           True)))))"

text \<open>\<^verbatim>\<open>SequenceViewerView.wheelEvent\<close>: the event goes to the controller first, and to
  the base class's scrolling when there is no controller or the controller declines it.\<close>

datatype wheel_outcome = Consumed | Forwarded_to_scroll wheel_event

definition wheelEvent ::
  "controller_state option \<Rightarrow> sequence_viewer_model \<Rightarrow> sequence_viewer_view \<Rightarrow> wheel_event
     \<Rightarrow> controller_state option \<times> sequence_viewer_view \<times> wheel_outcome" where
  "wheelEvent controller m v ev =
     (case controller of
        None \<Rightarrow> (None, v, Forwarded_to_scroll ev)
      | Some cs \<Rightarrow>
          (let (cs', v', handled) = handle_wheel_event cs m v ev in
           if handled then (Some cs', v', Consumed)
           else (Some cs', v', Forwarded_to_scroll ev)))"




section \<open>Ruler models: tick steps and tick layout\<close>

text \<open>
  Embedding of \<^verbatim>\<open>_choose_step_for_zoom\<close> and \<^verbatim>\<open>_round_to_nice_large\<close> of
  \<^verbatim>\<open>features/position_ruler/position_ruler_model.py\<close>, and of
  \<^verbatim>\<open>_nice_tick_step\<close> and \<^verbatim>\<open>compute_tick_layout\<close> of
  \<^verbatim>\<open>navigation_ruler_model/navigation_ruler_model.py\<close>.
\<close>

definition round_to_nice_large :: "int \<Rightarrow> int" where
  "round_to_nice_large step =
     (if step < 100000 then 100000
      else if step \<le> 200000 then 200000
      else if step \<le> 500000 then 500000
      else if step \<le> 1000000 then 1000000
      else if step \<le> 2000000 then 2000000
      else if step \<le> 5000000 then 5000000
      else
        (let power = (10::int) ^ nat (py_int (log 10 (real_of_int step)));
             base = step div power
         in if base \<le> 2 then 2 * power
            else if base \<le> 5 then 5 * power
            else 10 * power))"

definition choose_step_for_zoom :: "real \<Rightarrow> int \<Rightarrow> int" where
  "choose_step_for_zoom char_width visible_span =
     (if visible_span \<le> 0 then 1
      else
        (let target_labels = 10.0;
             raw_step = real_of_int visible_span / target_labels
         in if raw_step \<le> 1 then 1
            else
              (let power = py_pow10 (floor_log10 raw_step);
                   base = raw_step / power;
                   nice = (if base \<le> 1.5 then 1
                           else if base \<le> 3 then 2
                           else if base \<le> 7 then 5
                           else 10 :: real);
                   candidate0 = py_int (nice * power);
                   candidate =
                     (if visible_span \<ge> 1000000 then round_to_nice_large candidate0
                      else if visible_span \<ge> 100000 then max candidate0 10000
                      else if visible_span \<le> 100 then min candidate0 10
                      else candidate0)
               in max candidate 1)))"

definition nice_tick_step :: "int \<Rightarrow> int \<Rightarrow> int \<Rightarrow> int" where
  "nice_tick_step max_nt pixel_width target_px =
     (if max_nt \<le> 0 \<or> pixel_width \<le> 0 then (if max_nt > 0 then max_nt else 1)
      else
        (let raw_step = real_of_int (max_nt * target_px) / real_of_int pixel_width
         in if raw_step \<le> 0 then 1
            else
              (let power = py_pow10 (floor_log10 raw_step);
                   base = raw_step / power;
                   nice = (if base \<le> 1 then 1
                           else if base \<le> 2 then 2
                           else if base \<le> 5 then 5
                           else 10 :: real)
               in py_int (nice * power))))"

record navigation_tick_layout =
  tl_max_len :: int
  tl_tick_step :: int
  tl_major_ticks :: "int list"
  tl_minor_ticks :: "int list"

text \<open>The loop \<^verbatim>\<open>while nt <= max_nt: ticks.append(nt); nt += step\<close>. It need not
  terminate, so it is a partial function: \<open>None\<close> is the run that never leaves the loop.\<close>

partial_function (option) tick_loop :: "int \<Rightarrow> int \<Rightarrow> int \<Rightarrow> int list \<Rightarrow> int list option" where
  "tick_loop nt max_nt step ticks =
     (if nt \<le> max_nt then tick_loop (nt + step) max_nt step (ticks @ [nt]) else Some ticks)"

text \<open>The end-point adjustment of the major ticks after the loop.\<close>

definition adjust_last_tick :: "int list \<Rightarrow> int \<Rightarrow> int \<Rightarrow> int list" where
  "adjust_last_tick major_ticks max_nt step =
     (if major_ticks \<noteq> [] then
        (let last_nt = last major_ticks;
             delta = max_nt - last_nt
         in if delta \<noteq> 0 then
              (if real_of_int delta < real_of_int step * 0.5
               then butlast major_ticks @ [max_nt]
               else major_ticks @ [max_nt])
            else major_ticks)
      else major_ticks)"

text \<open>\<^verbatim>\<open>compute_tick_layout\<close> on a model whose cached longest length is \<open>max_nt\<close>. The
  outer \<open>None\<close> is non-termination; \<open>Some None\<close> is the method returning \<^verbatim>\<open>None\<close>.\<close>

definition compute_tick_layout :: "int \<Rightarrow> int \<Rightarrow> int \<Rightarrow> navigation_tick_layout option option" where
  "compute_tick_layout max_nt pixel_width target_px =
     (if max_nt \<le> 0 \<or> pixel_width \<le> 0 then Some None
      else
        (let step = nice_tick_step max_nt pixel_width target_px;
             minor_step = max (step div 5) 1
         in case tick_loop 0 max_nt minor_step [] of
              None \<Rightarrow> None
            | Some minor_ticks \<Rightarrow>
                (case tick_loop 0 max_nt step [] of
                   None \<Rightarrow> None
                 | Some major_ticks \<Rightarrow>
                     Some (Some \<lparr> tl_max_len = max_nt, tl_tick_step = step,
                                  tl_major_ticks = adjust_last_tick major_ticks max_nt step,
                                  tl_minor_ticks = minor_ticks \<rparr>))))"

text \<open>The ladder 100K, 200K, 500K, 1M, 2M, 5M, 10M, ... of the specification.\<close>

definition on_ladder :: "int \<Rightarrow> bool" where
  "on_ladder s = (\<exists>k\<ge>5. s = 10 ^ k \<or> s = 2 * 10 ^ k \<or> s = 5 * 10 ^ k)"


section \<open>The sequence store and the selection\<close>

lemma model_run_snoc: "model_run (calls @ [c]) = model_step (model_run calls) c"
  by (simp add: model_run_def)

lemma longest_row_snoc: "longest_row (xs @ [s]) = max (longest_row xs) (int (length s))"
proof (cases "xs = []")
  case True
  then show ?thesis by (simp add: longest_row_def)
next
  case False
  then have "Max (insert (int (length s)) (set (map (\<lambda>s. int (length s)) xs)))
      = max (int (length s)) (Max (set (map (\<lambda>s. int (length s)) xs)))"
    by (intro Max_insert) auto
  with False show ?thesis by (simp add: longest_row_def max.commute)
qed

lemma longest_row_nonneg: "0 \<le> longest_row xs"
proof (induction xs rule: rev_induct)
  case Nil
  show ?case by (simp add: longest_row_def)
next
  case (snoc x xs)
  then show ?case by (simp add: longest_row_snoc)
qed

lemma clamp_column_index_pos:
  "0 < max_sequence_length m \<Longrightarrow>
   clamp_column_index m col = Some (max 0 (min col (max_sequence_length m - 1)))"
  by (simp add: clamp_column_index_def)

lemma clamp_column_index_none:
  "max_sequence_length m \<le> 0 \<Longrightarrow> clamp_column_index m col = None"
  by (simp add: clamp_column_index_def)

lemma update_selection_no_anchor:
  "selection_start_row m = None \<or> selection_start_col m = None \<Longrightarrow>
   update_selection m r c = (m, None)"
  by (cases "selection_start_row m"; cases "selection_start_col m")
     (simp_all add: update_selection_def)

lemma update_selection_empty:
  assumes "selection_start_row m = Some a" and "selection_start_col m = Some c0"
    and "max_sequence_length m \<le> 0"
  shows "update_selection m r c = (clear_selection m, None)"
  using assms by (simp add: update_selection_def clamp_column_index_none)

lemma update_selection_no_rows:
  assumes "selection_start_row m = Some a" and "selection_start_col m = Some c0"
    and "get_row_count m = 0"
  shows "update_selection m r c = (clear_selection m, None)"
proof (cases "max_sequence_length m \<le> 0")
  case True
  with assms show ?thesis by (simp add: update_selection_empty)
next
  case False
  then have "0 < max_sequence_length m" by simp
  with assms show ?thesis by (simp add: update_selection_def clamp_column_index_pos)
qed

lemma update_selection_range:
  assumes a: "selection_start_row m = Some a" and c0: "selection_start_col m = Some c0"
    and len: "0 < max_sequence_length m" and rows: "get_row_count m \<noteq> 0"
  shows "update_selection m r c =
     (m\<lparr> current_selection_cols :=
          Some (min (max 0 (min c0 (max_sequence_length m - 1)))
                    (max 0 (min c (max_sequence_length m - 1))),
                max (max 0 (min c0 (max_sequence_length m - 1)))
                    (max 0 (min c (max_sequence_length m - 1)))) \<rparr>,
      Some (max 0 (min a r), min (get_row_count m - 1) (max a r),
            min (max 0 (min c0 (max_sequence_length m - 1)))
                (max 0 (min c (max_sequence_length m - 1))),
            max (max 0 (min c0 (max_sequence_length m - 1)))
                (max 0 (min c (max_sequence_length m - 1)))))"
proof -
  define x where "x = max 0 (min c0 (max_sequence_length m - 1))"
  define y where "y = max 0 (min c (max_sequence_length m - 1))"
  have x0: "0 \<le> x" and y0: "0 \<le> y" by (simp_all add: x_def y_def)
  then have "0 \<le> min x y" and "0 \<le> max x y" by simp_all
  moreover have "clamp_column_index m c0 = Some x" and "clamp_column_index m c = Some y"
    using len by (simp_all add: clamp_column_index_pos x_def y_def)
  ultimately have "update_selection m r c =
     (m\<lparr> current_selection_cols := Some (min x y, max x y) \<rparr>,
      Some (max 0 (min a r), min (get_row_count m - 1) (max a r), min x y, max x y))"
    using a c0 rows by (simp add: update_selection_def Let_def)
  then show ?thesis by (simp only: x_def y_def)
qed

lemma model_inv_init: "model_inv init_model"
  by (simp add: model_inv_def init_model_def longest_row_def)

lemma model_inv_clear_selection: "model_inv m \<Longrightarrow> model_inv (clear_selection m)"
  by (simp add: model_inv_def clear_selection_def get_row_count_def)

lemma model_inv_cols: "model_inv m \<Longrightarrow> model_inv (m\<lparr> current_selection_cols := x \<rparr>)"
  by (simp add: model_inv_def get_row_count_def)

lemma add_sequence_fst:
  "fst (add_sequence m s) =
     m\<lparr> sequences := sequences m @ [s],
        max_sequence_length := max (max_sequence_length m) (int (length s)) \<rparr>"
  by (simp add: add_sequence_def Let_def max_def)

lemma add_sequence_snd: "snd (add_sequence m s) = get_row_count m"
  by (simp add: add_sequence_def Let_def get_row_count_def)

lemma model_inv_add:
  assumes "model_inv m" shows "model_inv (fst (add_sequence m s))"
  using assms
  by (auto simp: add_sequence_fst model_inv_def longest_row_snoc get_row_count_def)

lemma model_inv_clear_sequences: "model_inv (clear_sequences m)"
  by (simp add: model_inv_def clear_sequences_def clear_selection_def longest_row_def)

lemma model_inv_start:
  assumes "model_inv m" shows "model_inv (fst (start_selection m r c))"
proof (cases "get_row_count m = 0 \<or> r < 0 \<or> r \<ge> get_row_count m \<or> c < 0")
  case True
  then have "fst (start_selection m r c) = clear_selection m"
    by (auto simp: start_selection_def Let_def)
  with assms show ?thesis by (simp add: model_inv_clear_selection)
next
  case False
  then have "fst (start_selection m r c)
      = m\<lparr> selection_start_row := Some r, selection_start_col := Some c \<rparr>"
    by (simp add: start_selection_def Let_def)
  with assms False show ?thesis by (simp add: model_inv_def get_row_count_def)
qed

lemma model_inv_update:
  assumes "model_inv m" shows "model_inv (fst (update_selection m r c))"
proof (cases "selection_start_row m")
  case None
  with assms show ?thesis by (simp add: update_selection_no_anchor)
next
  case a: (Some a)
  show ?thesis
  proof (cases "selection_start_col m")
    case None
    with assms show ?thesis by (simp add: update_selection_no_anchor)
  next
    case c0: (Some c0)
    show ?thesis
    proof (cases "0 < max_sequence_length m \<and> get_row_count m \<noteq> 0")
      case True
      then show ?thesis
        using assms update_selection_range[OF a c0, of r c] by (simp add: model_inv_cols)
    next
      case False
      then have "update_selection m r c = (clear_selection m, None)"
        using update_selection_empty[OF a c0] update_selection_no_rows[OF a c0]
        by (cases "get_row_count m = 0") simp_all
      with assms show ?thesis by (simp add: model_inv_clear_selection)
    qed
  qed
qed

lemma model_inv_step: "model_inv m \<Longrightarrow> model_inv (model_step m c)"
  by (cases c)
     (simp_all add: model_inv_add model_inv_clear_sequences model_inv_clear_selection
        model_inv_start model_inv_update)

lemma model_inv_run: "model_inv (model_run calls)"
proof (induction calls rule: rev_induct)
  case Nil
  show ?case by (simp add: model_run_def model_inv_init)
next
  case (snoc c calls)
  then show ?case by (simp add: model_run_snoc model_inv_step)
qed

text \<open>
  Claim C10. After any run of the model's mutators from a fresh model (runs of
  \<^verbatim>\<open>add_sequence\<close> and \<^verbatim>\<open>clear_sequences\<close> among them), the cached
  \<^verbatim>\<open>max_sequence_length\<close> is the maximum of the stored sequences' lengths, 0 when
  none is stored; and \<^verbatim>\<open>add_sequence\<close> returns the previous row count, which is the
  index at which the new sequence is stored.
\<close>

theorem longest_row_cache_invariant:
  "max_sequence_length (model_run calls) = longest_row (sequences (model_run calls))
   \<and> snd (add_sequence (model_run calls) s) = get_row_count (model_run calls)
   \<and> sequences (fst (add_sequence (model_run calls) s))
        ! nat (snd (add_sequence (model_run calls) s)) = s"
proof -
  have "max_sequence_length (model_run calls) = longest_row (sequences (model_run calls))"
    using model_inv_run[of calls] by (simp add: model_inv_def)
  moreover have "sequences (fst (add_sequence (model_run calls) s))
        ! nat (snd (add_sequence (model_run calls) s)) = s"
    by (simp add: add_sequence_fst add_sequence_snd get_row_count_def)
  ultimately show ?thesis by (simp add: add_sequence_snd)
qed

theorem longest_row_cache_invariant_witness:
  "max_sequence_length (model_run [Add_sequence ''ACGT'', Add_sequence ''AC'']) = 4
   \<and> snd (add_sequence (model_run [Add_sequence ''ACGT'', Add_sequence ''AC'']) ''GATTACA'') = 2
   \<and> max_sequence_length (model_run [Add_sequence ''ACGT'', Clear_sequences]) = 0"
  using longest_row_cache_invariant[of "[Add_sequence ''ACGT'', Add_sequence ''AC'']" "''GATTACA''"]
    longest_row_cache_invariant[of "[Add_sequence ''ACGT'', Clear_sequences]" "''A''"]
  by (simp add: model_run_def add_sequence_fst clear_sequences_def clear_selection_def
      init_model_def longest_row_def get_row_count_def)

text \<open>
  Claim C6. \<^verbatim>\<open>start_selection(row, col)\<close> returns \<open>True\<close> and records the anchor
  exactly when there is at least one row, \<open>0 \<le> row < row_count\<close> and \<open>col \<ge> 0\<close>;
  in every other case it returns \<open>False\<close> with the selection cleared: the anchor row,
  the anchor column and the current column range are all \<open>None\<close> afterwards. The
  sequences are untouched either way. The function is total: no input makes it fail.
\<close>

theorem start_selection_valid_iff:
  "(snd (start_selection m row col) \<longleftrightarrow>
      get_row_count m \<ge> 1 \<and> 0 \<le> row \<and> row < get_row_count m \<and> 0 \<le> col)
   \<and> start_selection m row col =
      (if get_row_count m \<ge> 1 \<and> 0 \<le> row \<and> row < get_row_count m \<and> 0 \<le> col
       then (m\<lparr> selection_start_row := Some row, selection_start_col := Some col \<rparr>, True)
       else (clear_selection m, False))
   \<and> (if get_row_count m \<ge> 1 \<and> 0 \<le> row \<and> row < get_row_count m \<and> 0 \<le> col
       then selection_start_row (fst (start_selection m row col)) = Some row
          \<and> selection_start_col (fst (start_selection m row col)) = Some col
          \<and> current_selection_cols (fst (start_selection m row col)) = current_selection_cols m
       else selection_start_row (fst (start_selection m row col)) = None
          \<and> selection_start_col (fst (start_selection m row col)) = None
          \<and> current_selection_cols (fst (start_selection m row col)) = None)
   \<and> sequences (fst (start_selection m row col)) = sequences m
   \<and> max_sequence_length (fst (start_selection m row col)) = max_sequence_length m"
proof -
  have "0 \<le> get_row_count m" by (simp add: get_row_count_def)
  then show ?thesis by (auto simp: start_selection_def Let_def clear_selection_def)
qed

theorem start_selection_valid_iff_witness:
  "start_selection (model_run [Add_sequence ''ACGT'']) 0 2
     = ((model_run [Add_sequence ''ACGT''])
          \<lparr> selection_start_row := Some 0, selection_start_col := Some 2 \<rparr>, True)
   \<and> start_selection (model_run [Add_sequence ''ACGT'', Start_selection 0 2]) 1 2
     = (model_run [Add_sequence ''ACGT''], False)
   \<and> start_selection (model_run [Add_sequence ''ACGT'', Start_selection 0 2]) 0 (- 1)
     = (model_run [Add_sequence ''ACGT''], False)
   \<and> start_selection init_model 0 0 = (init_model, False)
   \<and> selection_start_row
        (model_run [Add_sequence ''ACGT'', Start_selection 0 2, Update_selection 0 3]) = Some 0
   \<and> current_selection_cols
        (model_run [Add_sequence ''ACGT'', Start_selection 0 2, Update_selection 0 3])
       = Some (2, 3)
   \<and> selection_start_row (fst (start_selection
        (model_run [Add_sequence ''ACGT'', Start_selection 0 2, Update_selection 0 3]) 5 0))
       = None
   \<and> selection_start_col (fst (start_selection
        (model_run [Add_sequence ''ACGT'', Start_selection 0 2, Update_selection 0 3]) 5 0))
       = None
   \<and> current_selection_cols (fst (start_selection
        (model_run [Add_sequence ''ACGT'', Start_selection 0 2, Update_selection 0 3]) 5 0))
       = None
   \<and> \<not> snd (start_selection
        (model_run [Add_sequence ''ACGT'', Start_selection 0 2, Update_selection 0 3]) 5 0)"
proof -
  define m where
    "m = model_run [Add_sequence ''ACGT'', Start_selection 0 2, Update_selection 0 3]"
  have f: "selection_start_row m = Some 0" "current_selection_cols m = Some (2, 3)"
    "get_row_count m = 1"
    by (simp_all add: m_def model_run_def add_sequence_fst get_row_count_def init_model_def
        start_selection_def update_selection_def clamp_column_index_def Let_def)
  have a: "selection_start_row (fst (start_selection m 5 0)) = None
      \<and> selection_start_col (fst (start_selection m 5 0)) = None
      \<and> current_selection_cols (fst (start_selection m 5 0)) = None
      \<and> \<not> snd (start_selection m 5 0)"
  proof -
    have c: "\<not> (get_row_count m \<ge> 1 \<and> 0 \<le> (5::int) \<and> 5 < get_row_count m \<and> 0 \<le> (0::int))"
      by (simp add: f)
    from start_selection_valid_iff[of m 5 0] show ?thesis
      unfolding if_not_P[OF c] using c by blast
  qed
  have b: "start_selection (model_run [Add_sequence ''ACGT'']) 0 2
     = ((model_run [Add_sequence ''ACGT''])
          \<lparr> selection_start_row := Some 0, selection_start_col := Some 2 \<rparr>, True)
   \<and> start_selection (model_run [Add_sequence ''ACGT'', Start_selection 0 2]) 1 2
     = (model_run [Add_sequence ''ACGT''], False)
   \<and> start_selection (model_run [Add_sequence ''ACGT'', Start_selection 0 2]) 0 (- 1)
     = (model_run [Add_sequence ''ACGT''], False)
   \<and> start_selection init_model 0 0 = (init_model, False)"
    using start_selection_valid_iff[of "model_run [Add_sequence ''ACGT'']" 0 2]
      start_selection_valid_iff[of "model_run [Add_sequence ''ACGT'', Start_selection 0 2]" 1 2]
      start_selection_valid_iff[of "model_run [Add_sequence ''ACGT'', Start_selection 0 2]" 0 "- 1"]
      start_selection_valid_iff[of init_model 0 0]
    by (simp add: model_run_def add_sequence_fst get_row_count_def init_model_def
        clear_selection_def)
  from a b f show ?thesis unfolding m_def by simp
qed

text \<open>
  Claim C5 as stated takes the column range to be the minimum and maximum of the anchor
  column and the clamped current column. An anchor recorded beyond the last column (a
  press in the trailing padding) is clamped as well, so the claimed range is not the one
  returned.
\<close>

theorem update_selection_unclamped_anchor_counterexample:
  "selection_start_row
        (model_run [Add_sequence (replicate 1000 (CHR ''A'')), Start_selection 0 1500]) = Some 0
   \<and> selection_start_col
        (model_run [Add_sequence (replicate 1000 (CHR ''A'')), Start_selection 0 1500]) = Some 1500
   \<and> max_sequence_length
        (model_run [Add_sequence (replicate 1000 (CHR ''A'')), Start_selection 0 1500]) = 1000
   \<and> snd (update_selection
          (model_run [Add_sequence (replicate 1000 (CHR ''A'')), Start_selection 0 1500]) 0 200)
     = Some (0, 0, 200, 999)
   \<and> snd (update_selection
          (model_run [Add_sequence (replicate 1000 (CHR ''A'')), Start_selection 0 1500]) 0 200)
     \<noteq> Some (spec_update_range
          (model_run [Add_sequence (replicate 1000 (CHR ''A'')), Start_selection 0 1500])
          0 1500 0 200)"
  by (simp add: model_run_def add_sequence_fst get_row_count_def init_model_def
      start_selection_def update_selection_def clamp_column_index_def spec_update_range_def
      Let_def)

text \<open>
  Claim C5, amended. When \<^verbatim>\<open>update_selection(row, col)\<close> is called on a reachable
  model with an anchor: if the longest row has length 0 the selection is cleared and no
  range is returned; otherwise both the anchor column and the current column are clamped
  into \<open>[0, max_length - 1]\<close>, the current row is clamped into \<open>[0, row_count - 1]\<close>,
  the returned range is the minimum and maximum of the clamped anchor and the clamped
  current position, it is stored as the current column selection, and it satisfies
  \<open>0 \<le> row_start \<le> row_end \<le> row_count - 1\<close> and
  \<open>0 \<le> col_start \<le> col_end \<le> max_length - 1\<close>.
\<close>

theorem update_selection_clamps_anchor_and_current:
  assumes a: "selection_start_row (model_run calls) = Some a"
    and c0: "selection_start_col (model_run calls) = Some c0"
  shows "let m = model_run calls;
             L = max_sequence_length m;
             n = get_row_count m;
             cs = min (max 0 (min c0 (L - 1))) (max 0 (min col (L - 1)));
             ce = max (max 0 (min c0 (L - 1))) (max 0 (min col (L - 1)));
             rs = min a (max 0 (min row (n - 1)));
             re = max a (max 0 (min row (n - 1)))
         in if L \<le> 0 then update_selection m row col = (clear_selection m, None)
            else update_selection m row col
                   = (m\<lparr> current_selection_cols := Some (cs, ce) \<rparr>, Some (rs, re, cs, ce))
               \<and> 0 \<le> rs \<and> rs \<le> re \<and> re \<le> n - 1
               \<and> 0 \<le> cs \<and> cs \<le> ce \<and> ce \<le> L - 1"
proof -
  define m where "m = model_run calls"
  define L where "L = max_sequence_length m"
  define n where "n = get_row_count m"
  have inv: "model_inv m" by (simp add: m_def model_inv_run)
  have a': "selection_start_row m = Some a" and c0': "selection_start_col m = Some c0"
    using a c0 by (simp_all add: m_def)
  have arange: "0 \<le> a" "a < n"
    using inv a' by (simp_all add: model_inv_def n_def)
  then have rows: "get_row_count m \<noteq> 0" by (simp add: n_def)
  have empty: "update_selection m row col = (clear_selection m, None)" if "L \<le> 0"
    using update_selection_empty[OF a' c0'] that by (simp add: L_def)
  have r1: "max 0 (min a row) = min a (max 0 (min row (n - 1)))"
    using arange by (simp add: min_def max_def)
  have r2: "min (n - 1) (max a row) = max a (max 0 (min row (n - 1)))"
    using arange by (simp add: min_def max_def)
  have b1: "0 \<le> min a (max 0 (min row (n - 1)))"
    using arange by (simp add: min_def max_def)
  have b2: "max a (max 0 (min row (n - 1))) \<le> n - 1"
    using arange by (simp add: min_def max_def)
  have b0: "min a (max 0 (min row (n - 1))) \<le> max a (max 0 (min row (n - 1)))"
    by (simp add: min_def max_def)
  have b3: "max (max 0 (min c0 (L - 1))) (max 0 (min col (L - 1))) \<le> L - 1" if "0 < L"
    using that by (simp add: min_def max_def)
  have b4: "0 \<le> min (max 0 (min c0 (L - 1))) (max 0 (min col (L - 1)))"
    by (simp add: min_def max_def)
  have b5: "min (max 0 (min c0 (L - 1))) (max 0 (min col (L - 1)))
      \<le> max (max 0 (min c0 (L - 1))) (max 0 (min col (L - 1)))"
    by (simp add: min_def max_def)
  have nonempty: "update_selection m row col
      = (m\<lparr> current_selection_cols :=
             Some (min (max 0 (min c0 (L - 1))) (max 0 (min col (L - 1))),
                   max (max 0 (min c0 (L - 1))) (max 0 (min col (L - 1)))) \<rparr>,
         Some (min a (max 0 (min row (n - 1))), max a (max 0 (min row (n - 1))),
               min (max 0 (min c0 (L - 1))) (max 0 (min col (L - 1))),
               max (max 0 (min c0 (L - 1))) (max 0 (min col (L - 1)))))" if "0 < L"
  proof -
    have "0 < max_sequence_length m" using that by (simp add: L_def)
    from update_selection_range[OF a' c0' this rows, of row col]
    show ?thesis unfolding L_def[symmetric] n_def[symmetric] r1 r2 .
  qed
  show ?thesis
  proof (cases "L \<le> 0")
    case True
    with empty show ?thesis
      unfolding Let_def m_def[symmetric] L_def[symmetric] n_def[symmetric] by simp
  next
    case False
    then have pos: "0 < L" by simp
    show ?thesis
      unfolding Let_def m_def[symmetric] L_def[symmetric] n_def[symmetric]
      using False nonempty[OF pos] b0 b1 b2 b3[OF pos] b4 b5 by (simp only: if_False simp_thms)
  qed
qed

theorem update_selection_clamps_anchor_and_current_witness:
  "selection_start_row (model_run [Add_sequence (replicate 1000 (CHR ''A'')), Start_selection 0 500])
     = Some 0
   \<and> selection_start_col (model_run [Add_sequence (replicate 1000 (CHR ''A'')), Start_selection 0 500])
     = Some 500
   \<and> snd (update_selection
          (model_run [Add_sequence (replicate 1000 (CHR ''A'')), Start_selection 0 500]) 0 200)
     = Some (0, 0, 200, 500)"
proof -
  define m where "m = model_run [Add_sequence (replicate 1000 (CHR ''A'')), Start_selection 0 500]"
  have a: "selection_start_row m = Some 0" and c: "selection_start_col m = Some 500"
    and len: "max_sequence_length m = 1000" and rows: "get_row_count m = 1"
    by (simp_all add: m_def model_run_def add_sequence_fst get_row_count_def init_model_def
        start_selection_def Let_def)
  from update_selection_clamps_anchor_and_current[OF a[unfolded m_def] c[unfolded m_def], where row=0 and col=200]
  have "snd (update_selection m 0 200) = Some (0, 0, 200, 500)"
    unfolding m_def[symmetric] Let_def len rows by simp
  with a c show ?thesis unfolding m_def by simp
qed

section \<open>Level of detail\<close>

lemma mode_names_distinct:
  "TEXT_MODE \<noteq> BOX_MODE" "TEXT_MODE \<noteq> LINE_MODE" "BOX_MODE \<noteq> LINE_MODE"
  "BOX_MODE \<noteq> TEXT_MODE" "LINE_MODE \<noteq> TEXT_MODE" "LINE_MODE \<noteq> BOX_MODE"
  by (simp_all add: TEXT_MODE_def BOX_MODE_def LINE_MODE_def)

lemma update_display_state_kept:
  "it_char_width (update_display_state m) = it_char_width m"
  "it_base_font_size (update_display_state m) = it_base_font_size m"
  "it_char_height (update_display_state m) = it_char_height m"
  "it_lod_max_mode (update_display_state m) = it_lod_max_mode m"
  "it_sequence (update_display_state m) = it_sequence m"
  "it_default_char_width (update_display_state m)
     = (if it_default_char_width m \<le> 0 then 12 else it_default_char_width m)"
  by (simp_all add: update_display_state_def Let_def)

lemma update_display_state_font:
  "it_current_font_size (update_display_state m) =
     font_size_for_scale (it_base_font_size m)
       (max (it_char_width m) 0.001 /
        max (if it_default_char_width m \<le> 0 then 12 else it_default_char_width m) 0.001)"
  by (simp add: update_display_state_def Let_def)

lemma update_display_state_mode:
  "it_display_mode (update_display_state m)
     = display_mode_for_font (it_current_font_size (update_display_state m))"
  by (simp add: update_display_state_def Let_def)


lemma font_size_for_scale_chain:
  "font_size_for_scale b s =
     (if s \<ge> 1.8 then 12 else if s \<ge> 1.2 then 10 else if s \<ge> 0.7 then 8 else max 1 (b * s))"
  by (simp add: font_size_for_scale_def)

lemma display_mode_for_font_valid:
  "display_mode_for_font x \<in> {TEXT_MODE, BOX_MODE, LINE_MODE}"
  by (simp add: display_mode_for_font_def)

lemma display_mode_for_font_iff:
  "(display_mode_for_font x = TEXT_MODE \<longleftrightarrow> x \<ge> 8)"
  "(display_mode_for_font x = BOX_MODE \<longleftrightarrow> 5 \<le> x \<and> x < 8)"
  "(display_mode_for_font x = LINE_MODE \<longleftrightarrow> x < 5)"
  by (auto simp: display_mode_for_font_def TEXT_BOX_THRESHOLD_def BOX_LINE_THRESHOLD_def
      mode_names_distinct)

lemma py_round_of_int: "py_round (real_of_int n) = n"
  by (simp add: py_round_def)

lemma init_item_fields:
  "it_char_width (init_item s cw ch) = max cw 0.001"
  "it_default_char_width (init_item s cw ch) = max cw 0.001"
  "it_base_font_size (init_item s cw ch) = real_of_int (max 1 (py_round ch)) * 0.6"
  "it_lod_max_mode (init_item s cw ch) = None"
proof -
  have "\<not> max cw (0.001::real) \<le> 0" by (simp add: max_def)
  then show "it_char_width (init_item s cw ch) = max cw 0.001"
    "it_default_char_width (init_item s cw ch) = max cw 0.001"
    "it_base_font_size (init_item s cw ch) = real_of_int (max 1 (py_round ch)) * 0.6"
    "it_lod_max_mode (init_item s cw ch) = None"
    by (simp_all add: init_item_def Let_def update_display_state_kept)
qed

lemma set_char_width_fields:
  "it_char_width (set_char_width m w) = max w 0.001"
  "it_default_char_width (set_char_width m w)
     = (if it_default_char_width m \<le> 0 then 12 else it_default_char_width m)"
  "it_base_font_size (set_char_width m w) = it_base_font_size m"
  "it_current_font_size (set_char_width m w) =
     font_size_for_scale (it_base_font_size m)
       (max (max w 0.001) 0.001 /
        max (if it_default_char_width m \<le> 0 then 12 else it_default_char_width m) 0.001)"
  "it_display_mode (set_char_width m w)
     = display_mode_for_font (it_current_font_size (set_char_width m w))"
  by (simp_all add: set_char_width_def update_display_state_kept update_display_state_font
      update_display_state_mode)

text \<open>
  Claim C3 as stated computes the zoom ratio as \<open>char_width / base_char_width\<close> for every
  \<open>char_width\<close>. The model floors both widths at \<open>0.001\<close> first: an item built at
  width \<open>0.001\<close> and asked for \<open>0.0005\<close> gets font size 8 and Text mode, where
  the stated ratio \<open>0.5\<close> gives \<open>5.4\<close> and Box mode.
\<close>

theorem lod_policy_unclamped_scale_counterexample:
  "it_default_char_width (init_item ''ACGT'' 0.001 18) = 0.001
   \<and> it_base_font_size (init_item ''ACGT'' 0.001 18) = 10.8
   \<and> it_current_font_size (set_char_width (init_item ''ACGT'' 0.001 18) 0.0005) = 8
   \<and> it_display_mode (set_char_width (init_item ''ACGT'' 0.001 18) 0.0005) = TEXT_MODE
   \<and> font_size_for_scale 10.8 (0.0005 / 0.001) = 5.4
   \<and> display_mode_for_font (font_size_for_scale 10.8 (0.0005 / 0.001)) = BOX_MODE
   \<and> it_current_font_size (set_char_width (init_item ''ACGT'' 0.001 18) 0.0005)
       \<noteq> font_size_for_scale (it_base_font_size (init_item ''ACGT'' 0.001 18))
            (0.0005 / it_default_char_width (init_item ''ACGT'' 0.001 18))"
proof -
  define item where "item = init_item ''ACGT'' 0.001 18"
  have r: "py_round 18 = 18" using py_round_of_int[of 18] by simp
  have d: "it_default_char_width item = 0.001"
    and b: "it_base_font_size item = 10.8"
    by (simp_all add: item_def init_item_fields r)
  have "it_current_font_size (set_char_width item 0.0005)
      = font_size_for_scale 10.8 (max (max 0.0005 0.001) 0.001 / max 0.001 0.001)"
    unfolding set_char_width_fields d b by simp
  also have "\<dots> = 8" by (simp add: font_size_for_scale_def)
  finally have f: "it_current_font_size (set_char_width item 0.0005) = 8" .
  have m: "it_display_mode (set_char_width item 0.0005) = TEXT_MODE"
    unfolding set_char_width_fields(5) f by (simp add: display_mode_for_font_iff)
  have c: "font_size_for_scale 10.8 (0.0005 / 0.001) = 5.4"
    by (simp add: font_size_for_scale_def)
  have c': "display_mode_for_font (font_size_for_scale 10.8 (0.0005 / 0.001)) = BOX_MODE"
    unfolding c by (simp add: display_mode_for_font_iff)
  have ne: "it_current_font_size (set_char_width item 0.0005)
       \<noteq> font_size_for_scale (it_base_font_size item) (0.0005 / it_default_char_width item)"
    unfolding f d b c by simp
  show ?thesis
    unfolding item_def[symmetric] by (intro conjI d b f m c c' ne)
qed

text \<open>
  Claim C3, amended. For every \<open>char_width\<close> and every \<open>base_char_width > 0\<close>, with
  \<open>scale = max(char_width, 0.001) / max(base_char_width, 0.001)\<close>, the snapped font size is
  12 when \<open>scale \<ge> 1.8\<close>, 10 when \<open>1.2 \<le> scale < 1.8\<close>, 8 when
  \<open>0.7 \<le> scale < 1.2\<close>, and \<open>max(1, base_font_size * scale)\<close> otherwise; the display
  mode is Text iff that size is at least 8.0, Box iff it is in \<open>[5.0, 8.0)\<close>, and Line
  otherwise; size 8.0 selects Text and 7.999 selects Box. Python floats are read as
  exact reals.
\<close>

theorem lod_policy_clamped_scale:
  assumes "0 < it_default_char_width m"
  shows "let scale = max (it_char_width m) 0.001 / max (it_default_char_width m) 0.001;
             m' = update_display_state m;
             font_size = it_current_font_size m'
         in font_size = (if scale \<ge> 1.8 then 12 else if scale \<ge> 1.2 then 10
                         else if scale \<ge> 0.7 then 8
                         else max 1 (it_base_font_size m * scale))
          \<and> (it_display_mode m' = TEXT_MODE \<longleftrightarrow> font_size \<ge> 8.0)
          \<and> (it_display_mode m' = BOX_MODE \<longleftrightarrow> 5.0 \<le> font_size \<and> font_size < 8.0)
          \<and> (it_display_mode m' = LINE_MODE \<longleftrightarrow> font_size < 5.0)
          \<and> it_display_mode m' \<in> {TEXT_MODE, BOX_MODE, LINE_MODE}
          \<and> display_mode_for_font 8.0 = TEXT_MODE \<and> display_mode_for_font 7.999 = BOX_MODE"
proof -
  define scale where "scale = max (it_char_width m) 0.001 / max (it_default_char_width m) 0.001"
  define fs where "fs = it_current_font_size (update_display_state m)"
  have "\<not> it_default_char_width m \<le> 0" using assms by simp
  then have "fs = font_size_for_scale (it_base_font_size m) scale"
    unfolding fs_def scale_def update_display_state_font by (simp only: if_False)
  then have f: "fs = (if scale \<ge> 1.8 then 12 else if scale \<ge> 1.2 then 10
                         else if scale \<ge> 0.7 then 8
                         else max 1 (it_base_font_size m * scale))"
    by (simp only: font_size_for_scale_chain)
  have md: "it_display_mode (update_display_state m) = display_mode_for_font fs"
    unfolding fs_def by (rule update_display_state_mode)
  have b: "display_mode_for_font 8.0 = TEXT_MODE" "display_mode_for_font 7.999 = BOX_MODE"
    by (simp_all add: display_mode_for_font_iff)
  have i: "(display_mode_for_font fs = TEXT_MODE \<longleftrightarrow> fs \<ge> 8.0)"
    "(display_mode_for_font fs = BOX_MODE \<longleftrightarrow> 5.0 \<le> fs \<and> fs < 8.0)"
    "(display_mode_for_font fs = LINE_MODE \<longleftrightarrow> fs < 5.0)"
    by (simp_all add: display_mode_for_font_iff)
  show ?thesis
    unfolding Let_def scale_def[symmetric] fs_def[symmetric] md
    using f b i display_mode_for_font_valid[of fs] by blast
qed

theorem lod_policy_clamped_scale_witness:
  "0 < it_default_char_width ((init_item ''ACGT'' 12 18)\<lparr> it_char_width := 6 \<rparr>)
   \<and> it_current_font_size
        (update_display_state ((init_item ''ACGT'' 12 18)\<lparr> it_char_width := 6 \<rparr>)) = 5.4
   \<and> it_display_mode
        (update_display_state ((init_item ''ACGT'' 12 18)\<lparr> it_char_width := 6 \<rparr>)) = BOX_MODE"
proof -
  define m where "m = (init_item ''ACGT'' 12 18)\<lparr> it_char_width := 6 \<rparr>"
  have r: "py_round 18 = 18" using py_round_of_int[of 18] by simp
  have d: "it_default_char_width m = 12" "it_char_width m = 6" "it_base_font_size m = 10.8"
    by (simp_all add: m_def init_item_fields r)
  have pos: "0 < it_default_char_width m" by (simp add: d)
  have "it_current_font_size (update_display_state m) = 5.4
      \<and> it_display_mode (update_display_state m) = BOX_MODE"
    using lod_policy_clamped_scale[OF pos] unfolding Let_def d by simp
  with pos show ?thesis unfolding m_def by simp
qed

text \<open>
  Claim C7. For the zoom-derived base mode of any item and any maximum-mode override
  that \<^verbatim>\<open>set_lod_max_mode\<close> accepts, the effective mode is the coarser of the two in
  the rank Text > Box > Line: its rank is the minimum of the two ranks, so it is never
  finer than the base mode; with the override cleared the effective mode is the base
  mode.
\<close>

theorem effective_mode_is_coarser:
  assumes "ov \<in> {TEXT_MODE, BOX_MODE, LINE_MODE}"
  shows "let m = update_display_state m0;
             base_mode = it_display_mode m;
             eff = get_effective_mode (set_lod_max_mode m (Some ov))
         in detail_rank eff = min (detail_rank base_mode) (detail_rank ov)
          \<and> eff = (if detail_rank ov < detail_rank base_mode then ov else base_mode)
          \<and> detail_rank eff \<le> detail_rank base_mode
          \<and> get_effective_mode (set_lod_max_mode m None) = base_mode"
proof -
  define m where "m = update_display_state m0"
  have v: "it_display_mode m \<in> {TEXT_MODE, BOX_MODE, LINE_MODE}"
    unfolding m_def by (simp only: update_display_state_mode display_mode_for_font_valid)
  have e: "get_effective_mode (set_lod_max_mode m (Some ov))
      = (if mode_order (it_display_mode m) < mode_order ov then ov else it_display_mode m)"
    using assms by (auto simp: get_effective_mode_def set_lod_max_mode_def)
  have n: "get_effective_mode (set_lod_max_mode m None) = it_display_mode m"
    by (simp add: get_effective_mode_def set_lod_max_mode_def)
  show ?thesis
    unfolding Let_def m_def[symmetric] e n
    using assms v
    by (auto simp: mode_order_def detail_rank_def mode_names_distinct)
qed

theorem effective_mode_is_coarser_witness:
  "BOX_MODE \<in> {TEXT_MODE, BOX_MODE, LINE_MODE}
   \<and> it_display_mode (update_display_state (init_item ''ACGT'' 12 18)) = TEXT_MODE
   \<and> get_effective_mode
        (set_lod_max_mode (update_display_state (init_item ''ACGT'' 12 18)) (Some BOX_MODE))
      = BOX_MODE
   \<and> get_effective_mode
        (set_lod_max_mode (update_display_state (init_item ''ACGT'' 12 18)) None) = TEXT_MODE"
proof -
  have h: "BOX_MODE \<in> {TEXT_MODE, BOX_MODE, LINE_MODE}" by simp
  have r: "py_round 18 = 18" using py_round_of_int[of 18] by simp
  have t: "it_display_mode (update_display_state (init_item ''ACGT'' 12 18)) = TEXT_MODE"
    by (simp add: update_display_state_mode update_display_state_font init_item_fields r
        font_size_for_scale_def display_mode_for_font_iff)
  show ?thesis
    using effective_mode_is_coarser[OF h, of "init_item ''ACGT'' 12 18"] unfolding Let_def t
    by (simp add: detail_rank_def mode_names_distinct)
qed

section \<open>Wheel events\<close>

text \<open>
  Claim C9. A wheel event without the zoom modifier is declined by
  \<^verbatim>\<open>handle_wheel_event\<close>, which returns \<open>False\<close> and leaves the controller (the zoom
  streak included) and the view (its \<open>char_width\<close> included) as they were; the view's
  \<^verbatim>\<open>wheelEvent\<close> then forwards the same event to the base class's scrolling.
\<close>

theorem wheel_without_modifier_is_forwarded:
  assumes "\<not> ev_ctrl_modifier ev"
  shows "handle_wheel_event cs m v ev = (cs, v, False)
     \<and> wheelEvent (Some cs) m v ev = (Some cs, v, Forwarded_to_scroll ev)
     \<and> wheelEvent None m v ev = (None, v, Forwarded_to_scroll ev)
     \<and> v_char_width (fst (snd (handle_wheel_event cs m v ev))) = v_char_width v
     \<and> effective_char_width (fst (snd (handle_wheel_event cs m v ev))) = effective_char_width v
     \<and> c_wheel_zoom_streak_dir (fst (handle_wheel_event cs m v ev)) = c_wheel_zoom_streak_dir cs
     \<and> c_wheel_zoom_streak_len (fst (handle_wheel_event cs m v ev)) = c_wheel_zoom_streak_len cs"
proof -
  have h: "handle_wheel_event cs m v ev = (cs, v, False)"
    using assms by (simp add: handle_wheel_event_def)
  then show ?thesis by (simp add: wheelEvent_def)
qed

theorem wheel_without_modifier_is_forwarded_witness:
  "\<not> ev_ctrl_modifier \<lparr> ev_ctrl_modifier = False, ev_angle_delta_y = - 120, ev_pos_x = 100 \<rparr>
   \<and> wheelEvent (Some init_controller) init_model (add_sequence_item (init_view 12 18 500) ''ACGT'')
        \<lparr> ev_ctrl_modifier = False, ev_angle_delta_y = - 120, ev_pos_x = 100 \<rparr>
      = (Some init_controller, add_sequence_item (init_view 12 18 500) ''ACGT'',
         Forwarded_to_scroll
           \<lparr> ev_ctrl_modifier = False, ev_angle_delta_y = - 120, ev_pos_x = 100 \<rparr>)"
proof -
  have h: "\<not> ev_ctrl_modifier \<lparr> ev_ctrl_modifier = False, ev_angle_delta_y = - 120, ev_pos_x = 100 \<rparr>"
    by simp
  from wheel_without_modifier_is_forwarded[OF h] h show ?thesis by blast
qed

section \<open>Tick layout of the navigation ruler\<close>

lemma py_pow10_powr: "py_pow10 e = 10 powr (real_of_int e)"
  by (simp add: py_pow10_def powr_int)

lemma py_pow10_pos: "0 < py_pow10 e"
  by (simp add: py_pow10_powr)

lemma py_pow10_Suc: "py_pow10 (e + 1) = 10 * py_pow10 e"
  by (simp add: py_pow10_powr powr_add)

lemma floor_log10_eqI:
  assumes "0 < x" and "py_pow10 e \<le> x" and "x < py_pow10 (e + 1)"
  shows "floor_log10 x = e"
proof -
  have "10 powr (real_of_int e) \<le> x \<and> x < 10 powr (real_of_int e + 1)"
    using assms by (simp add: py_pow10_powr)
  with assms(1) show ?thesis
    unfolding floor_log10_def by (simp add: floor_log_eq_powr_iff)
qed

lemma floor_log10_bounds:
  assumes "0 < x"
  shows "py_pow10 (floor_log10 x) \<le> x" and "x < 10 * py_pow10 (floor_log10 x)"
proof -
  have "10 powr (real_of_int (floor_log10 x)) \<le> x
      \<and> x < 10 powr (real_of_int (floor_log10 x) + 1)"
    using assms floor_log_eq_powr_iff[of x 10 "floor_log10 x"]
    by (simp add: floor_log10_def)
  then show "py_pow10 (floor_log10 x) \<le> x" and "x < 10 * py_pow10 (floor_log10 x)"
    by (simp_all add: py_pow10_powr powr_add)
qed

lemma tick_loop_closed_form:
  assumes "0 < step"
  shows "tick_loop nt max_nt step ticks
     = Some (ticks @ map (\<lambda>k. nt + int k * step) [0..<nat ((max_nt - nt) div step + 1)])"
  using assms
proof (induction "nat (max_nt - nt + 1)" arbitrary: nt ticks rule: less_induct)
  case less
  show ?case
  proof (cases "nt \<le> max_nt")
    case False
    then have "(max_nt - nt) div step < 0"
      using less.prems by (simp add: div_neg_pos_less0)
    then have "nat ((max_nt - nt) div step + 1) = 0" by simp
    with False show ?thesis by (simp add: tick_loop.simps)
  next
    case True
    have m: "nat (max_nt - (nt + step) + 1) < nat (max_nt - nt + 1)"
      using True less.prems by simp
    have d: "(max_nt - (nt + step)) div step + 1 = (max_nt - nt) div step"
    proof -
      have "(max_nt - (nt + step) + step) div step = (max_nt - (nt + step)) div step + 1"
        using less.prems by (simp only: div_add_self2)
      moreover have "max_nt - (nt + step) + step = max_nt - nt" by simp
      ultimately show ?thesis by simp
    qed
    have nn: "0 \<le> (max_nt - nt) div step"
      using True less.prems by (simp add: pos_imp_zdiv_nonneg_iff)
    then have s: "nat ((max_nt - nt) div step + 1) = Suc (nat ((max_nt - nt) div step))"
      by simp
    have sh: "map (\<lambda>k. nt + int k * step) [0..<Suc n]
        = nt # map (\<lambda>k. nt + step + int k * step) [0..<n]" for n
    proof -
      have "[0..<Suc n] = 0 # map Suc [0..<n]"
        by (simp add: upt_conv_Cons map_Suc_upt del: upt_Suc)
      then show ?thesis by (simp add: algebra_simps del: upt_Suc)
    qed
    have "tick_loop nt max_nt step ticks = tick_loop (nt + step) max_nt step (ticks @ [nt])"
      using True by (subst tick_loop.simps) simp
    also have "\<dots> = Some ((ticks @ [nt]) @ map (\<lambda>k. nt + step + int k * step)
        [0..<nat ((max_nt - (nt + step)) div step + 1)])"
      using less.hyps[OF m less.prems] .
    finally show ?thesis unfolding d s sh by simp
  qed
qed

lemma tick_loop_zero_step_never_returns:
  assumes "tick_loop nt max_nt step ticks = Some r"
  shows "\<not> (step = 0 \<and> nt \<le> max_nt)"
proof (rule tick_loop.raw_induct[where P = "\<lambda>nt max_nt step ticks r. \<not> (step = 0 \<and> nt \<le> max_nt)",
      OF _ assms])
  fix f :: "int \<Rightarrow> int \<Rightarrow> int \<Rightarrow> int list \<Rightarrow> int list option"
    and nt max_nt step :: int and ticks r :: "int list"
  assume ih: "\<And>nt max_nt step ticks r. f nt max_nt step ticks = Some r
      \<Longrightarrow> \<not> (step = 0 \<and> nt \<le> max_nt)"
    and eq: "(if nt \<le> max_nt then f (nt + step) max_nt step (ticks @ [nt]) else Some ticks) = Some r"
  show "\<not> (step = 0 \<and> nt \<le> max_nt)"
  proof
    assume z: "step = 0 \<and> nt \<le> max_nt"
    with eq have "f (nt + step) max_nt step (ticks @ [nt]) = Some r" by simp
    from ih[OF this] z show False by simp
  qed
qed

lemma tick_loop_zero_step: "nt \<le> max_nt \<Longrightarrow> tick_loop nt max_nt 0 ticks = None"
  using tick_loop_zero_step_never_returns[of nt max_nt 0 ticks]
  by (cases "tick_loop nt max_nt 0 ticks") auto


lemma py_int_of_int: "py_int (real_of_int n) = n"
  by (simp add: py_int_def)

lemma nice_tick_step_5_1000: "nice_tick_step 5 1000 60 = 0"
proof -
  have e: "floor_log10 (3 / 10) = - 1"
    by (rule floor_log10_eqI) (simp_all add: py_pow10_def)
  have p: "py_pow10 (- 1) = 1 / 10" by (simp add: py_pow10_def)
  have "nice_tick_step 5 1000 60 = py_int (1 / 2)"
    by (simp add: nice_tick_step_def Let_def e p)
  also have "\<dots> = 0" by (simp add: py_int_def)
  finally show ?thesis .
qed

lemma adjust_last_tick_last:
  assumes "ticks \<noteq> []"
  shows "last (adjust_last_tick ticks max_nt step) = max_nt"
  using assms by (simp add: adjust_last_tick_def Let_def)

lemma adjust_last_tick_cases:
  assumes "ticks \<noteq> []"
  shows "adjust_last_tick ticks max_nt step =
     (if last ticks = max_nt then ticks
      else if 2 * (max_nt - last ticks) < step then butlast ticks @ [max_nt]
      else ticks @ [max_nt])"
proof -
  have "real_of_int (max_nt - last ticks) < real_of_int step * 0.5
      \<longleftrightarrow> 2 * (max_nt - last ticks) < step"
  proof -
    have "real_of_int (max_nt - last ticks) < real_of_int step * 0.5
      \<longleftrightarrow> real_of_int (2 * (max_nt - last ticks)) < real_of_int step"
      by (simp add: algebra_simps)
    then show ?thesis by (simp only: of_int_less_iff)
  qed
  with assms show ?thesis by (auto simp: adjust_last_tick_def Let_def)
qed

lemma major_ticks_for_positive_step:
  assumes "0 < max_nt" and "0 < step"
  shows "tick_loop 0 max_nt step []
           = Some (map (\<lambda>k. int k * step) [0..<nat (max_nt div step + 1)])"
    and "map (\<lambda>k. int k * step) [0..<nat (max_nt div step + 1)] \<noteq> []"
    and "last (map (\<lambda>k. int k * step) [0..<nat (max_nt div step + 1)])
           = (max_nt div step) * step"
proof -
  show "tick_loop 0 max_nt step []
           = Some (map (\<lambda>k. int k * step) [0..<nat (max_nt div step + 1)])"
    using tick_loop_closed_form[OF assms(2), of 0 max_nt "[]"] by simp
  have nn: "0 \<le> max_nt div step"
    using assms by (simp add: pos_imp_zdiv_nonneg_iff)
  then have s: "nat (max_nt div step + 1) = Suc (nat (max_nt div step))" by simp
  show "map (\<lambda>k. int k * step) [0..<nat (max_nt div step + 1)] \<noteq> []"
    unfolding s by simp
  show "last (map (\<lambda>k. int k * step) [0..<nat (max_nt div step + 1)])
           = (max_nt div step) * step"
    unfolding s using nn by simp
qed

text \<open>
  Claim C8 says that for every content length \<open>L > 0\<close> and chosen step the major ticks
  are produced and end at \<open>L\<close>. For a cached length 5 on a ruler 1000 pixels wide (the
  default \<open>target_px = 60\<close>) the step chosen by \<^verbatim>\<open>_nice_tick_step\<close> is 0, the loop
  that generates the major ticks never advances, and \<^verbatim>\<open>compute_tick_layout\<close> does not
  return. For every positive step the end-point rule holds
  (\<open>compute_tick_layout_positive_step\<close>, \<open>adjust_last_tick_cases\<close>).
\<close>

theorem compute_tick_layout_zero_step_never_returns:
  "nice_tick_step 5 1000 60 = 0 \<and> compute_tick_layout 5 1000 60 = None"
proof -
  have m: "tick_loop 0 5 1 [] \<noteq> None"
    using tick_loop_closed_form[of 1 0 5 "[]"] by simp
  have z: "tick_loop 0 5 0 [] = None" by (rule tick_loop_zero_step) simp
  show ?thesis
    using m z by (auto simp: compute_tick_layout_def nice_tick_step_5_1000 Let_def
        split: option.splits)
qed

lemma compute_tick_layout_positive_step:
  assumes "0 < max_nt" and "0 < pixel_width" and "0 < nice_tick_step max_nt pixel_width target_px"
  shows "\<exists>layout. compute_tick_layout max_nt pixel_width target_px = Some (Some layout)
           \<and> last (tl_major_ticks layout) = max_nt
           \<and> tl_major_ticks layout =
               adjust_last_tick
                 (map (\<lambda>k. int k * tl_tick_step layout)
                    [0..<nat (max_nt div tl_tick_step layout + 1)])
                 max_nt (tl_tick_step layout)"
proof -
  define step where "step = nice_tick_step max_nt pixel_width target_px"
  have sp: "0 < step" using assms(3) by (simp add: step_def)
  have mp: "0 < max (step div 5) 1" by simp
  note maj = major_ticks_for_positive_step[OF assms(1) sp]
  note mnr = major_ticks_for_positive_step(1)[OF assms(1) mp]
  show ?thesis
    using assms(1,2) maj(2)
    by (simp add: compute_tick_layout_def Let_def step_def[symmetric] maj(1) mnr
        adjust_last_tick_last)
qed

section \<open>Tick steps\<close>

lemma floor_log10_nonneg:
  assumes "1 \<le> x" shows "0 \<le> floor_log10 x"
proof (rule ccontr)
  assume "\<not> 0 \<le> floor_log10 x"
  then have neg: "floor_log10 x \<le> - 1" by simp
  have "0 < x" using assms by simp
  from floor_log10_bounds(2)[OF this]
  have "x < 10 powr (real_of_int (floor_log10 x) + 1)"
    by (simp add: py_pow10_powr powr_add)
  also have "\<dots> \<le> 10 powr 0"
    using neg by (intro powr_mono) simp_all
  finally show False using assms by simp
qed

lemma choose_step_small: "real_of_int vs / 10 \<le> 1 \<Longrightarrow> choose_step_for_zoom cw vs = 1"
  by (simp add: choose_step_for_zoom_def Let_def)

lemma choose_step_unfold:
  assumes "1 < real_of_int vs / 10"
  shows "choose_step_for_zoom cw vs =
     max (let r = real_of_int vs / 10; p = py_pow10 (floor_log10 r); b = r / p;
              c = py_int ((if b \<le> 1.5 then 1 else if b \<le> 3 then 2 else if b \<le> 7 then 5 else 10) * p)
          in if vs \<ge> 1000000 then round_to_nice_large c
             else if vs \<ge> 100000 then max c 10000
             else if vs \<le> 100 then min c 10 else c) 1"
proof -
  have "\<not> vs \<le> 0" using assms by simp
  moreover have "\<not> real_of_int vs / (10.0) \<le> 1" using assms by simp
  ultimately show ?thesis
    unfolding choose_step_for_zoom_def Let_def by (simp only: if_False) simp
qed


lemma round_to_nice_large_on_ladder: "on_ladder (round_to_nice_large s)"
proof (cases "s \<le> 5000000")
  case True
  have l: "on_ladder 100000" "on_ladder 200000" "on_ladder 500000"
    "on_ladder 1000000" "on_ladder 2000000" "on_ladder 5000000"
    unfolding on_ladder_def
    by (rule exI[of _ 5], simp) (rule exI[of _ 5], simp, rule exI[of _ 5], simp,
        rule exI[of _ 6], simp, rule exI[of _ 6], simp, rule exI[of _ 6], simp)
  from True show ?thesis by (simp add: round_to_nice_large_def l)
next
  case False
  define e where "e = py_int (log 10 (real_of_int s))"
  have big: "(10::real) ^ 6 \<le> real_of_int s" using False by simp
  have "log 10 ((10::real) ^ 6) \<le> log 10 (real_of_int s)"
    using big by (subst log_le_cancel_iff) simp_all
  moreover have "log 10 ((10::real) ^ 6) = 6"
    by (simp only: log_nat_power[of 10 10 6]) simp
  ultimately have l6: "6 \<le> log 10 (real_of_int s)" by simp
  then have "e = \<lfloor>log 10 (real_of_int s)\<rfloor>" by (simp add: e_def py_int_def)
  with l6 have e6: "6 \<le> e" by (simp add: le_floor_iff)
  define k where "k = nat e"
  have k5: "5 \<le> k" and k5': "5 \<le> Suc k" using e6 by (simp_all add: k_def)
  have r: "round_to_nice_large s =
      (if s div 10 ^ k \<le> 2 then 2 * 10 ^ k else if s div 10 ^ k \<le> 5 then 5 * 10 ^ k
       else 10 * 10 ^ k)"
    using False by (simp add: round_to_nice_large_def Let_def e_def[symmetric] k_def[symmetric])
  have "on_ladder (2 * 10 ^ k)" "on_ladder (5 * 10 ^ k)"
    unfolding on_ladder_def using k5 by blast+
  moreover have "on_ladder (10 * 10 ^ k)"
    unfolding on_ladder_def using k5' by (intro exI[of _ "Suc k"]) simp
  ultimately show ?thesis unfolding r by simp
qed


text \<open>
  Claim C2 as stated has both rulers select the step by one algorithm. For 120 columns on
  a ruler 600 pixels wide the navigation ruler's raw step is \<open>120 * 60 / 600 = 12\<close>, the
  same as \<open>visible_span / 10\<close>, yet its thresholds (1, 2, 5) give step 20 where the
  position ruler's (1.5, 3, 7) give 10.
\<close>

theorem tick_step_not_shared_counterexample:
  "nice_tick_step 120 600 60 = 20 \<and> choose_step_for_zoom 12 120 = 10
   \<and> real_of_int (120 * 60) / real_of_int 600 = real_of_int 120 / 10
   \<and> nice_tick_step 120 600 60 \<noteq> choose_step_for_zoom 12 120"
proof -
  have e: "floor_log10 12 = 1"
    by (rule floor_log10_eqI) (simp_all add: py_pow10_def)
  have p: "py_pow10 1 = 10" by (simp add: py_pow10_def)
  have "nice_tick_step 120 600 60 = py_int 20"
    by (simp add: nice_tick_step_def Let_def e p)
  then have n: "nice_tick_step 120 600 60 = 20" by (simp add: py_int_def)
  have "choose_step_for_zoom 12 120 = max (py_int 10) 1"
    by (simp add: choose_step_for_zoom_def Let_def e p)
  then have c: "choose_step_for_zoom 12 120 = 10" by (simp add: py_int_def)
  show ?thesis unfolding n c by simp
qed

text \<open>
  Claim C2, amended to the position ruler. For every positive \<open>visible_span\<close>, with
  \<open>raw_step = visible_span / 10\<close>: if \<open>raw_step \<le> 1\<close> the step is 1; otherwise, with
  \<open>k = floor(log10(raw_step))\<close> (which is not negative), \<open>base = raw_step / 10^k\<close> lies in
  \<open>[1, 10)\<close> and is snapped to 1, 2, 5 or 10 at the thresholds 1.5, 3 and 7, the candidate
  is that value times \<open>10^k\<close>, a span of at least 1,000,000 sends the candidate through
  \<^verbatim>\<open>_round_to_nice_large\<close> and the result lies on the ladder 100K, 200K, 500K, 1M, ...,
  a span in \<open>[100,000, 1,000,000)\<close> floors the step at 10,000, a span of at most 100 caps
  it at 10, and the step is never less than 1.
\<close>

theorem choose_step_for_zoom_algorithm:
  assumes "0 < visible_span"
  shows "let raw_step = real_of_int visible_span / 10;
             step = choose_step_for_zoom char_width visible_span
         in (raw_step \<le> 1 \<longrightarrow> step = 1)
          \<and> (1 < raw_step \<longrightarrow>
               (let k = nat (floor_log10 raw_step);
                    base = raw_step / 10 ^ k;
                    nice = (if base \<le> 1.5 then 1 else if base \<le> 3 then 2
                            else if base \<le> 7 then 5 else 10 :: int);
                    candidate = nice * 10 ^ k
                in 0 \<le> floor_log10 raw_step \<and> 1 \<le> base \<and> base < 10
                 \<and> step = max 1 (if visible_span \<ge> 1000000 then round_to_nice_large candidate
                                  else if visible_span \<ge> 100000 then max candidate 10000
                                  else if visible_span \<le> 100 then min candidate 10
                                  else candidate)))
          \<and> (1000000 \<le> visible_span \<longrightarrow> on_ladder step)
          \<and> (100000 \<le> visible_span \<and> visible_span < 1000000 \<longrightarrow> 10000 \<le> step)
          \<and> (visible_span \<le> 100 \<longrightarrow> step \<le> 10)
          \<and> 1 \<le> step"
proof (cases "real_of_int visible_span / 10 \<le> 1")
  case True
  then have s: "choose_step_for_zoom char_width visible_span = 1" by (rule choose_step_small)
  have "visible_span \<le> 10" using True by simp
  with True show ?thesis unfolding Let_def s by simp
next
  case False
  define r where "r = real_of_int visible_span / 10"
  define k where "k = nat (floor_log10 r)"
  define b where "b = r / 10 ^ k"
  define nice :: int where
    "nice = (if b \<le> 1.5 then 1 else if b \<le> 3 then 2 else if b \<le> 7 then 5 else 10)"
  define c where "c = nice * 10 ^ k"
  define adj where "adj = (if visible_span \<ge> 1000000 then round_to_nice_large c
                           else if visible_span \<ge> 100000 then max c 10000
                           else if visible_span \<le> 100 then min c 10 else c)"
  have r1: "1 < r" using False by (simp add: r_def)
  then have rpos: "0 < r" by simp
  have e0: "0 \<le> floor_log10 r" using r1 by (intro floor_log10_nonneg) simp
  then have pw: "py_pow10 (floor_log10 r) = 10 ^ k" by (simp add: py_pow10_def k_def)
  have b1: "1 \<le> b" and b10: "b < 10"
    using floor_log10_bounds[OF rpos] unfolding pw b_def by (simp_all add: field_simps)
  have nr: "(if b \<le> 1.5 then 1 else if b \<le> 3 then 2 else if b \<le> 7 then 5 else 10 :: real)
      = real_of_int nice"
    by (simp add: nice_def)
  have "real_of_int nice * 10 ^ k = real_of_int c" by (simp add: c_def)
  then have pc: "py_int ((if b \<le> 1.5 then 1 else if b \<le> 3 then 2 else if b \<le> 7 then 5
        else 10 :: real) * 10 ^ k) = c"
    unfolding nr by (simp only: py_int_of_int)
  have st: "choose_step_for_zoom char_width visible_span = max adj 1"
    using choose_step_unfold[of visible_span char_width] r1
    unfolding r_def[symmetric] Let_def pw b_def[symmetric] pc adj_def by simp
  have lad: "on_ladder (max adj 1)" if "1000000 \<le> visible_span"
  proof -
    have a: "adj = round_to_nice_large c" using that by (simp add: adj_def)
    have "\<exists>j\<ge>5. adj = 10 ^ j \<or> adj = 2 * 10 ^ j \<or> adj = 5 * 10 ^ j"
      using round_to_nice_large_on_ladder[of c] unfolding a on_ladder_def .
    then obtain j where "adj = 10 ^ j \<or> adj = 2 * 10 ^ j \<or> adj = 5 * 10 ^ j" by blast
    moreover have "1 \<le> (10::int) ^ j" by simp
    then have "1 \<le> 2 * (10::int) ^ j" "1 \<le> 5 * (10::int) ^ j" by linarith+
    ultimately have "1 \<le> adj" by auto
    then have "max adj 1 = adj" by simp
    with round_to_nice_large_on_ladder[of c] a show ?thesis by simp
  qed
  have fl: "10000 \<le> max adj 1" if "100000 \<le> visible_span \<and> visible_span < 1000000"
    using that by (simp add: adj_def)
  have nice10: "nice \<le> 10" and nice1: "1 \<le> nice" by (simp_all add: nice_def)
  have cap: "max adj 1 \<le> 10" if "visible_span \<le> 100"
    using that by (simp add: adj_def)
  show ?thesis
    unfolding Let_def r_def[symmetric] k_def[symmetric] b_def[symmetric] nice_def[symmetric]
      c_def[symmetric] adj_def[symmetric] st
    using False r1 e0 b1 b10 lad fl cap by (simp add: r_def max.commute)
qed

theorem choose_step_for_zoom_algorithm_witness:
  "0 < (1000000::int) \<and> choose_step_for_zoom 12 1000000 = 200000
   \<and> on_ladder (choose_step_for_zoom 12 1000000)
   \<and> choose_step_for_zoom 12 50 \<le> 10"
proof -
  have e: "floor_log10 100000 = 5"
    by (rule floor_log10_eqI) (simp_all add: py_pow10_def)
  have "choose_step_for_zoom 12 1000000 = max (round_to_nice_large (py_int 100000)) 1"
    by (simp add: choose_step_for_zoom_def Let_def e py_pow10_def)
  then have v: "choose_step_for_zoom 12 1000000 = 200000"
    by (simp add: py_int_def round_to_nice_large_def)
  have h: "0 < (1000000::int)" and h2: "0 < (50::int)" by simp_all
  show ?thesis
    using choose_step_for_zoom_algorithm[OF h, of 12]
      choose_step_for_zoom_algorithm[OF h2, of 12] v
    unfolding Let_def by simp
qed


section \<open>The view's geometry and its animation\<close>

lemma update_scene_rect_kept:
  "v_sequence_items (update_scene_rect v) = v_sequence_items v"
  "v_char_width (update_scene_rect v) = v_char_width v"
  "v_viewport_width (update_scene_rect v) = v_viewport_width v"
  "v_hbar_value (update_scene_rect v) = v_hbar_value v"
  "v_anim_running (update_scene_rect v) = v_anim_running v"
  "v_anim_current_value (update_scene_rect v) = v_anim_current_value v"
  "v_anim_end_value (update_scene_rect v) = v_anim_end_value v"
  "v_anim_start_value (update_scene_rect v) = v_anim_start_value v"
  "v_anim_duration (update_scene_rect v) = v_anim_duration v"
  "v_anim_current_time (update_scene_rect v) = v_anim_current_time v"
  "v_zoom_center_nt (update_scene_rect v) = v_zoom_center_nt v"
  "v_zoom_view_width_px (update_scene_rect v) = v_zoom_view_width_px v"
  "v_trailing_padding_line_px (update_scene_rect v) = v_trailing_padding_line_px v"
  "v_trailing_padding_text_px (update_scene_rect v) = v_trailing_padding_text_px v"
  by (simp_all add: update_scene_rect_def Let_def)

lemma current_trailing_padding_update_scene_rect:
  "current_trailing_padding (update_scene_rect v) = current_trailing_padding v"
  by (simp add: current_trailing_padding_def update_scene_rect_kept split: list.splits)

lemma effective_char_width_update_scene_rect:
  "effective_char_width (update_scene_rect v) = effective_char_width v"
  by (simp add: effective_char_width_def update_scene_rect_kept split: list.splits option.splits)

lemma update_scene_rect_geometry:
  assumes "v_sequence_items v \<noteq> []"
  shows "v_max_sequence_length (update_scene_rect v)
           = Max (set (map (\<lambda>it. int (length (it_sequence it))) (v_sequence_items v)))"
    and "v_scene_width (update_scene_rect v)
           = real_of_int (Max (set (map (\<lambda>it. int (length (it_sequence it))) (v_sequence_items v))))
               * v_char_width v + current_trailing_padding v"
  using assms
  by (simp_all add: update_scene_rect_def Let_def current_trailing_padding_def split: list.splits)

lemma init_item_sequence: "it_sequence (init_item s cw ch) = s"
  by (simp add: init_item_def Let_def update_display_state_kept)

lemma init_item_mode:
  "it_display_mode (init_item s cw ch) = display_mode_for_font (font_size_for_scale
      (real_of_int (max 1 (py_round ch)) * 0.6) 1)"
proof -
  have p: "\<not> max cw (0.001::real) \<le> 0" by (simp add: max_def)
  have q: "max (max cw 0.001) (0.001::real) / max (max cw 0.001) 0.001 = 1"
    using p by simp
  show ?thesis
    unfolding init_item_def Let_def update_display_state_mode update_display_state_font
    using p q by simp
qed

lemma init_item_text_mode: "it_display_mode (init_item s cw ch) = TEXT_MODE"
  unfolding init_item_mode by (simp add: font_size_for_scale_def display_mode_for_font_iff)






lemma recenter_horizontally_degenerate:
  assumes "0 < w" and "v_scene_width v \<le> 0"
  shows "recenter_horizontally v c w = v"
  using assms by (simp add: recenter_horizontally_def Let_def)



lemma recenter_horizontally_other_fields:
  "v_sequence_items (recenter_horizontally v c w) = v_sequence_items v"
  "v_zoom_center_nt (recenter_horizontally v c w) = v_zoom_center_nt v"
  "v_zoom_view_width_px (recenter_horizontally v c w) = v_zoom_view_width_px v"
  "v_anim_running (recenter_horizontally v c w) = v_anim_running v"
  "v_anim_current_value (recenter_horizontally v c w) = v_anim_current_value v"
  "v_trailing_padding_text_px (recenter_horizontally v c w) = v_trailing_padding_text_px v"
  "v_trailing_padding_line_px (recenter_horizontally v c w) = v_trailing_padding_line_px v"
  "v_viewport_width (recenter_horizontally v c w) = v_viewport_width v"
  "v_anim_start_value (recenter_horizontally v c w) = v_anim_start_value v"
  "v_anim_end_value (recenter_horizontally v c w) = v_anim_end_value v"
  "v_anim_duration (recenter_horizontally v c w) = v_anim_duration v"
  "v_anim_current_time (recenter_horizontally v c w) = v_anim_current_time v"
  by (simp_all add: recenter_horizontally_def Let_def)


lemma apply_char_width_pivot:
  "apply_char_width v x (Some c) (Some w) =
     recenter_horizontally
       (update_scene_rect
          (v\<lparr> v_sequence_items := map (\<lambda>it. gi_set_char_width it x) (v_sequence_items v),
              v_char_width :=
                (case map (\<lambda>it. gi_set_char_width it x) (v_sequence_items v) of
                   [] \<Rightarrow> x | first_item # _ \<Rightarrow> it_char_width first_item) \<rparr>)) c w"
  by (simp add: apply_char_width_def Let_def)

lemma apply_char_width_pivot_fields:
  "v_sequence_items (apply_char_width v x (Some c) (Some w))
     = map (\<lambda>it. gi_set_char_width it x) (v_sequence_items v)"
  "v_zoom_center_nt (apply_char_width v x (Some c) (Some w)) = v_zoom_center_nt v"
  "v_zoom_view_width_px (apply_char_width v x (Some c) (Some w)) = v_zoom_view_width_px v"
  "v_anim_running (apply_char_width v x (Some c) (Some w)) = v_anim_running v"
  "v_anim_current_value (apply_char_width v x (Some c) (Some w)) = v_anim_current_value v"
  "v_anim_start_value (apply_char_width v x (Some c) (Some w)) = v_anim_start_value v"
  "v_anim_end_value (apply_char_width v x (Some c) (Some w)) = v_anim_end_value v"
  "v_anim_duration (apply_char_width v x (Some c) (Some w)) = v_anim_duration v"
  "v_anim_current_time (apply_char_width v x (Some c) (Some w)) = v_anim_current_time v"
  "v_trailing_padding_text_px (apply_char_width v x (Some c) (Some w)) = v_trailing_padding_text_px v"
  "v_trailing_padding_line_px (apply_char_width v x (Some c) (Some w)) = v_trailing_padding_line_px v"
  "v_viewport_width (apply_char_width v x (Some c) (Some w)) = v_viewport_width v"
  unfolding apply_char_width_pivot
  by (simp_all add: recenter_horizontally_other_fields update_scene_rect_kept)

lemma zoom_animation_frame_cases:
  "zoom_animation_frame v x =
     (case (v_zoom_center_nt v, v_zoom_view_width_px v) of
        (Some c, Some w) \<Rightarrow>
          apply_char_width (v\<lparr> v_anim_current_value := Some x \<rparr>) x (Some c) (Some w)
      | _ \<Rightarrow> v\<lparr> v_anim_current_value := Some x \<rparr>)"
  by (simp add: zoom_animation_frame_def on_zoom_value_changed_def split: option.splits)

lemma zoom_animation_frame_fields:
  "v_zoom_center_nt (zoom_animation_frame v x) = v_zoom_center_nt v"
  "v_zoom_view_width_px (zoom_animation_frame v x) = v_zoom_view_width_px v"
  "v_anim_running (zoom_animation_frame v x) = v_anim_running v"
  "v_anim_current_value (zoom_animation_frame v x) = Some x"
  "v_anim_start_value (zoom_animation_frame v x) = v_anim_start_value v"
  "v_anim_end_value (zoom_animation_frame v x) = v_anim_end_value v"
  "v_anim_duration (zoom_animation_frame v x) = v_anim_duration v"
  "v_anim_current_time (zoom_animation_frame v x) = v_anim_current_time v"
  "v_trailing_padding_text_px (zoom_animation_frame v x) = v_trailing_padding_text_px v"
  "v_trailing_padding_line_px (zoom_animation_frame v x) = v_trailing_padding_line_px v"
  "v_viewport_width (zoom_animation_frame v x) = v_viewport_width v"
  unfolding zoom_animation_frame_cases
  by (simp_all add: apply_char_width_pivot_fields split: option.splits)

lemma anim_recalculate_cases:
  "anim_recalculate v = v \<or> (\<exists>x. anim_recalculate v = zoom_animation_frame v x)"
  by (auto simp: anim_recalculate_def Let_def split: option.splits)

lemma anim_recalculate_fields:
  "v_zoom_center_nt (anim_recalculate v) = v_zoom_center_nt v"
  "v_zoom_view_width_px (anim_recalculate v) = v_zoom_view_width_px v"
  "v_anim_running (anim_recalculate v) = v_anim_running v"
  "v_anim_start_value (anim_recalculate v) = v_anim_start_value v"
  "v_anim_end_value (anim_recalculate v) = v_anim_end_value v"
  "v_anim_duration (anim_recalculate v) = v_anim_duration v"
  "v_anim_current_time (anim_recalculate v) = v_anim_current_time v"
  "v_trailing_padding_text_px (anim_recalculate v) = v_trailing_padding_text_px v"
  "v_trailing_padding_line_px (anim_recalculate v) = v_trailing_padding_line_px v"
  "v_viewport_width (anim_recalculate v) = v_viewport_width v"
  using anim_recalculate_cases[of v] by (auto simp: zoom_animation_frame_fields)


lemma anim_recalculate_complete:
  assumes "v_anim_start_value v = Some s" and "v_anim_end_value v = Some e"
  shows "anim_recalculate v =
     (if v_anim_current_value v = Some (s + (e - s) * anim_progress v) then v
      else zoom_animation_frame v (s + (e - s) * anim_progress v))"
  using assms by (simp add: anim_recalculate_def Let_def)

lemma start_zoom_animation_retargets:
  assumes "\<not> \<bar>target - effective_char_width v\<bar> < 0.0001"
  shows "v_anim_end_value (start_zoom_animation v target center_nt w) = Some target"
    and "v_anim_running (start_zoom_animation v target center_nt w)"
    and "v_zoom_center_nt (start_zoom_animation v target center_nt w)
           = (if v_anim_running v then v_zoom_center_nt v else Some center_nt)"
  using assms
  by (simp_all add: start_zoom_animation_def Let_def anim_set_end_value_def
      anim_set_start_value_def anim_set_duration_def anim_start_def anim_recalculate_fields)


section \<open>Wheel zoom\<close>

lemma compute_min_char_width_formula:
  assumes "v_sequence_items v \<noteq> []" and "0 < v_max_sequence_length v"
    and "0 < v_viewport_width v"
  shows "compute_min_char_width v =
     max ((real_of_int (v_viewport_width v)
            - max (v_trailing_padding_line_px v) (current_trailing_padding v))
          / real_of_int (v_max_sequence_length v)) 0.000001"
proof -
  define pad where "pad = max (v_trailing_padding_line_px v) (current_trailing_padding v)"
  define a where "a = real_of_int (v_viewport_width v) - pad"
  define L where "L = real_of_int (v_max_sequence_length v)"
  have Lpos: "0 < L" using assms(2) by (simp add: L_def)
  have c: "compute_min_char_width v = (if a \<le> 0 then 0.000001 else max (a / L) 0.000001)"
    using assms by (simp add: compute_min_char_width_def Let_def a_def pad_def L_def)
  have "max (a / L) 0.000001 = 0.000001" if "a \<le> 0"
  proof -
    have "a / L \<le> 0" using that Lpos by (simp add: divide_le_0_iff)
    then show ?thesis by simp
  qed
  then have "compute_min_char_width v = max (a / L) 0.000001"
    unfolding c by simp
  then show ?thesis unfolding a_def pad_def L_def .
qed

lemma handle_wheel_event_zoom:
  assumes ctrl: "ev_ctrl_modifier ev" and delta: "ev_angle_delta_y ev \<noteq> 0"
    and items: "v_sequence_items v \<noteq> []" and vp: "0 < v_viewport_width v"
    and cur: "0 < effective_char_width v"
  shows "handle_wheel_event cs m v ev =
     (let steps = real_of_int (ev_angle_delta_y ev) / 120;
          direction = (if 0 < steps then 1 else - 1 :: int);
          k = (if c_wheel_zoom_streak_dir cs = Some direction
               then c_wheel_zoom_streak_len cs + 1 else 1);
          cs1 = cs\<lparr> c_wheel_zoom_streak_dir := Some direction, c_wheel_zoom_streak_len := k \<rparr>;
          current_cw = effective_char_width v;
          target_cw = wheel_target_char_width v k steps direction current_cw
      in (cs1,
          if \<bar>target_cw - current_cw\<bar> < 0.0001 then v
          else start_zoom_animation v target_cw (wheel_pivot_nt m v ev current_cw)
                 (Some (real_of_int (v_viewport_width v))),
          True))"
proof -
  define steps where "steps = real_of_int (ev_angle_delta_y ev) / 120"
  define d :: int where "d = (if 0 < steps then 1 else - 1)"
  define k where "k = (if c_wheel_zoom_streak_dir cs = Some d
               then c_wheel_zoom_streak_len cs + 1 else 1)"
  define cs1 where "cs1 = cs\<lparr> c_wheel_zoom_streak_dir := Some d, c_wheel_zoom_streak_len := k \<rparr>"
  define T where "T = wheel_target_char_width v k steps d (effective_char_width v)"
  have cs_eq: "(if c_wheel_zoom_streak_dir cs = Some d
        then cs\<lparr> c_wheel_zoom_streak_len := c_wheel_zoom_streak_len cs + 1 \<rparr>
        else cs\<lparr> c_wheel_zoom_streak_dir := Some d, c_wheel_zoom_streak_len := 1 \<rparr>) = cs1"
    by (simp add: cs1_def k_def)
  have k1: "c_wheel_zoom_streak_len cs1 = k" by (simp add: cs1_def)
  have st: "real_of_int (ev_angle_delta_y ev) / 120.0 = steps" by (simp add: steps_def)
  have ifd: "(if c then (a, x, b) else (a, y, b)) = (a, if c then x else y, b)"
    for c and a :: controller_state and x y :: sequence_viewer_view and b :: bool
    by simp
  have g2: "\<not> real_of_int (v_viewport_width v) \<le> 0" using vp by simp
  have g3: "\<not> effective_char_width v \<le> 0" using cur by simp
  have "handle_wheel_event cs m v ev =
      (cs1, if \<bar>T - effective_char_width v\<bar> < 0.0001 then v
            else start_zoom_animation v T (wheel_pivot_nt m v ev (effective_char_width v))
                   (Some (real_of_int (v_viewport_width v))), True)"
    unfolding handle_wheel_event_def Let_def st d_def[symmetric] cs_eq k1 T_def
    using ctrl delta items g2 g3
    by (simp only: if_True if_False not_not simp_thms ifd)
  then show ?thesis
    unfolding Let_def steps_def[symmetric] d_def[symmetric] k_def[symmetric] cs1_def[symmetric]
      T_def[symmetric] .
qed


lemma add_sequence_item_init_view:
  fixes cw :: real and h vp :: int and s :: string
  defines "v \<equiv> add_sequence_item (init_view cw (real_of_int h) vp) s"
  shows "v_sequence_items v = [init_item s cw (real_of_int h)]"
    and "v_max_sequence_length v = int (length s)"
    and "v_viewport_width v = vp"
    and "v_hbar_value v = 0"
    and "\<not> v_anim_running v"
    and "v_char_width v = cw"
    and "v_trailing_padding_line_px v = 80"
    and "v_trailing_padding_text_px v = 30"
    and "current_trailing_padding v = 30"
    and "effective_char_width v = max cw 0.001"
    and "v_scene_width v = real_of_int (int (length s)) * cw + 30"
    and "v_anim_start_value v = None"
    and "v_anim_end_value v = None"
    and "v_anim_current_value v = None"
    and "v_anim_duration v = 250"
    and "v_anim_current_time v = 0"
    and "v_zoom_center_nt v = None"
proof -
  define u where "u = (init_view cw (real_of_int h) vp)
      \<lparr> v_sequence_items := [init_item s cw (real_of_int h)] \<rparr>"
  have vu: "v = update_scene_rect u"
    by (simp add: v_def u_def add_sequence_item_def init_view_def py_round_of_int Let_def)
  have items: "v_sequence_items u = [init_item s cw (real_of_int h)]" by (simp add: u_def)
  then have ne: "v_sequence_items u \<noteq> []" by simp
  have ctp: "current_trailing_padding u = 30"
    by (simp add: current_trailing_padding_def items init_item_text_mode mode_names_distinct)
       (simp add: u_def init_view_def)
  show "v_sequence_items v = [init_item s cw (real_of_int h)]"
    by (simp add: vu update_scene_rect_kept items)
  show "v_max_sequence_length v = int (length s)"
    by (simp add: vu update_scene_rect_geometry(1)[OF ne] items init_item_sequence)
  show "v_viewport_width v = vp" "v_hbar_value v = 0" "\<not> v_anim_running v" "v_char_width v = cw"
    "v_trailing_padding_line_px v = 80" "v_trailing_padding_text_px v = 30"
    by (simp_all add: vu update_scene_rect_kept) (simp_all add: u_def init_view_def)
  show "current_trailing_padding v = 30"
    by (simp add: vu current_trailing_padding_update_scene_rect ctp)
  show "effective_char_width v = max cw 0.001"
    unfolding vu effective_char_width_update_scene_rect
    by (simp add: effective_char_width_def items init_item_fields) (simp add: u_def init_view_def)
  show "v_scene_width v = real_of_int (int (length s)) * cw + 30"
    unfolding vu update_scene_rect_geometry(2)[OF ne] ctp
    by (simp add: items init_item_sequence) (simp add: u_def init_view_def)
  show "v_anim_start_value v = None" "v_anim_end_value v = None"
    "v_anim_current_value v = None" "v_anim_duration v = 250" "v_anim_current_time v = 0"
    "v_zoom_center_nt v = None"
    by (simp_all add: vu update_scene_rect_kept) (simp_all add: u_def init_view_def)
qed

text \<open>
  Claim C4 as stated has the target clamped into \<open>[min_char_width, 90]\<close>. For the row
  \<open>ACGT\<close> in a viewport 500 pixels wide \<open>min_char_width\<close> is \<open>(500 - 80) / 4 = 105\<close>,
  above 90: a notch of zooming out at width 12 sets the target to 105.
\<close>

theorem wheel_zoom_target_above_maximum_counterexample:
  "compute_min_char_width (add_sequence_item (init_view 12 18 500) ''ACGT'') = 105
   \<and> effective_char_width (add_sequence_item (init_view 12 18 500) ''ACGT'') = 12
   \<and> v_anim_end_value (fst (snd (handle_wheel_event init_controller init_model
         (add_sequence_item (init_view 12 18 500) ''ACGT'')
         \<lparr> ev_ctrl_modifier = True, ev_angle_delta_y = - 120, ev_pos_x = 100 \<rparr>))) = Some 105
   \<and> \<not> (105::real) \<le> 90"
proof -
  define ev where "ev = \<lparr> ev_ctrl_modifier = True, ev_angle_delta_y = - 120, ev_pos_x = 100 \<rparr>"
  define v where "v = add_sequence_item (init_view 12 (real_of_int 18) 500) ''ACGT''"
  have v': "add_sequence_item (init_view 12 18 500) ''ACGT'' = v" by (simp add: v_def)
  note f = add_sequence_item_init_view[where cw = 12 and h = 18 and vp = 500
      and s = "''ACGT''", folded v_def]
  have h1: "ev_ctrl_modifier ev" and h2: "ev_angle_delta_y ev \<noteq> 0" by (simp_all add: ev_def)
  have h3: "v_sequence_items v \<noteq> []" by (simp add: f(1))
  have h4: "0 < v_viewport_width v" by (simp add: f(3))
  have h5: "0 < v_max_sequence_length v" by (simp add: f(2))
  have h6: "0 < effective_char_width v" by (simp add: f(10))
  have ec: "effective_char_width v = 12" by (simp add: f(10))
  have mn: "compute_min_char_width v = 105"
    by (simp add: compute_min_char_width_formula[OF h3 h5 h4] f)
  have t: "wheel_target_char_width v 1 (- 1) (- 1) 12 = 105"
    by (simp add: wheel_target_char_width_def Let_def mn wheel_zoom_base_factor_def
        wheel_zoom_accel_factor_def)
  have d: "real_of_int (ev_angle_delta_y ev) / 120 = - 1" by (simp add: ev_def)
  have c: "c_wheel_zoom_streak_dir init_controller = None" by (simp add: init_controller_def)
  have nd: "\<not> \<bar>105 - effective_char_width v\<bar> < 0.0001" by (simp add: ec)
  have "fst (snd (handle_wheel_event init_controller init_model v ev))
      = start_zoom_animation v 105 (wheel_pivot_nt init_model v ev 12) (Some 500)"
    unfolding handle_wheel_event_zoom[OF h1 h2 h3 h4 h6] Let_def d c ec
    by (simp add: t f(3))
  then have "v_anim_end_value (fst (snd (handle_wheel_event init_controller init_model v ev)))
      = Some 105"
    by (simp only: start_zoom_animation_retargets(1)[OF nd])
  with mn ec show ?thesis unfolding v' ev_def[symmetric] by simp
qed

text \<open>
  Claim C4, amended. For a wheel event with the zoom modifier held and a non-zero angle
  delta, on a view with content (at least one row, positive longest length, positive
  viewport width and current width): with \<open>steps = delta / 120\<close> and \<open>k\<close> the streak
  length after the event (the previous length plus one when the direction repeats, 1
  otherwise), the target width is the current width times
  \<open>(1.22 * 1.06^(k-1))^|steps|\<close> when zooming in and divided by it when zooming out,
  capped at 90 and then raised to \<open>min_char_width\<close>, that is
  \<open>max(min_char_width, min(., 90))\<close>, where
  \<open>min_char_width = max((viewport_px - trailing_padding_px) / max_content_length, 1e-6)\<close>
  and \<open>trailing_padding_px\<close> is the larger of the Line-mode and the current-mode padding.
  The target is never below \<open>min_char_width\<close>; it is at most 90 when
  \<open>min_char_width\<close> is, and equals \<open>min_char_width\<close> when that exceeds 90. The
  event is consumed, and the target becomes the end value of the running zoom animation,
  unless it is within \<open>0.0001\<close> of the current width, in which case the view is left as
  it is.
\<close>

theorem wheel_zoom_target:
  assumes ctrl: "ev_ctrl_modifier ev" and delta: "ev_angle_delta_y ev \<noteq> 0"
    and items: "v_sequence_items v \<noteq> []" and vp: "0 < v_viewport_width v"
    and len: "0 < v_max_sequence_length v" and cur: "0 < effective_char_width v"
  shows "let steps = real_of_int (ev_angle_delta_y ev) / 120;
             direction = (if 0 < steps then 1 else - 1 :: int);
             k = (if c_wheel_zoom_streak_dir cs = Some direction
                  then c_wheel_zoom_streak_len cs + 1 else 1);
             per_notch = 1.22 * 1.06 ^ nat (k - 1);
             factor = (if 0 < steps then per_notch powr \<bar>steps\<bar>
                       else 1 / (per_notch powr \<bar>steps\<bar>));
             current = effective_char_width v;
             trailing_padding = max (v_trailing_padding_line_px v) (current_trailing_padding v);
             min_char_width =
               max ((real_of_int (v_viewport_width v) - trailing_padding)
                    / real_of_int (v_max_sequence_length v)) 0.000001;
             target = max min_char_width (min (current * factor) 90);
             result = handle_wheel_event cs m v ev;
             cs' = fst result; v' = fst (snd result); handled = snd (snd result)
         in handled
          \<and> c_wheel_zoom_streak_dir cs' = Some direction
          \<and> c_wheel_zoom_streak_len cs' = k
          \<and> (if \<bar>target - current\<bar> < 0.0001 then v' = v
              else v_anim_running v' \<and> v_anim_end_value v' = Some target)
          \<and> min_char_width \<le> target
          \<and> (min_char_width \<le> 90 \<longrightarrow> target \<le> 90)
          \<and> (90 < min_char_width \<longrightarrow> target = min_char_width)"
proof -
  define steps where "steps = real_of_int (ev_angle_delta_y ev) / 120"
  define d :: int where "d = (if 0 < steps then 1 else - 1)"
  define k where "k = (if c_wheel_zoom_streak_dir cs = Some d
                  then c_wheel_zoom_streak_len cs + 1 else 1)"
  define per_notch :: real where "per_notch = 1.22 * 1.06 ^ nat (k - 1)"
  define factor where "factor = (if 0 < steps then per_notch powr \<bar>steps\<bar>
                       else 1 / (per_notch powr \<bar>steps\<bar>))"
  define current where "current = effective_char_width v"
  define min_cw where "min_cw =
       max ((real_of_int (v_viewport_width v)
               - max (v_trailing_padding_line_px v) (current_trailing_padding v))
            / real_of_int (v_max_sequence_length v)) 0.000001"
  define target where "target = max min_cw (min (current * factor) 90)"
  have nk: "nat (max 0 (k - 1)) = nat (k - 1)" by simp
  have dpos: "0 < d \<longleftrightarrow> 0 < steps" by (simp add: d_def)
  have T: "wheel_target_char_width v k steps d current = target"
    unfolding wheel_target_char_width_def Let_def nk dpos
      compute_min_char_width_formula[OF items len vp] min_cw_def[symmetric]
      wheel_zoom_base_factor_def wheel_zoom_accel_factor_def
    by (simp add: target_def factor_def per_notch_def)
  have h: "handle_wheel_event cs m v ev =
      (cs\<lparr> c_wheel_zoom_streak_dir := Some d, c_wheel_zoom_streak_len := k \<rparr>,
       if \<bar>target - current\<bar> < 0.0001 then v
       else start_zoom_animation v target (wheel_pivot_nt m v ev current)
              (Some (real_of_int (v_viewport_width v))),
       True)"
    using handle_wheel_event_zoom[OF ctrl delta items vp cur, of cs m]
    unfolding Let_def steps_def[symmetric] d_def[symmetric] k_def[symmetric]
      current_def[symmetric] T .
  have a: "v_anim_running (start_zoom_animation v target c w)
      \<and> v_anim_end_value (start_zoom_animation v target c w) = Some target"
    if "\<not> \<bar>target - current\<bar> < 0.0001" for c w
    using start_zoom_animation_retargets(1,2)[of target v c w] that
    unfolding current_def by simp
  have b: "min_cw \<le> target" "min_cw \<le> 90 \<longrightarrow> target \<le> 90" "90 < min_cw \<longrightarrow> target = min_cw"
    by (simp_all add: target_def)
  show ?thesis
    unfolding Let_def steps_def[symmetric] d_def[symmetric] k_def[symmetric]
      per_notch_def[symmetric] factor_def[symmetric] current_def[symmetric]
      min_cw_def[symmetric] target_def[symmetric] h
    using a b by simp
qed


theorem wheel_zoom_target_witness:
  "ev_ctrl_modifier \<lparr> ev_ctrl_modifier = True, ev_angle_delta_y = - 120, ev_pos_x = 100 \<rparr>
   \<and> ev_angle_delta_y \<lparr> ev_ctrl_modifier = True, ev_angle_delta_y = - 120, ev_pos_x = 100 \<rparr> \<noteq> 0
   \<and> v_sequence_items (add_sequence_item (init_view 0.5 18 500) (replicate 1000 (CHR ''A''))) \<noteq> []
   \<and> 0 < v_viewport_width (add_sequence_item (init_view 0.5 18 500) (replicate 1000 (CHR ''A'')))
   \<and> 0 < v_max_sequence_length
            (add_sequence_item (init_view 0.5 18 500) (replicate 1000 (CHR ''A'')))
   \<and> 0 < effective_char_width
            (add_sequence_item (init_view 0.5 18 500) (replicate 1000 (CHR ''A'')))
   \<and> compute_min_char_width
         (add_sequence_item (init_view 0.5 18 500) (replicate 1000 (CHR ''A''))) = 0.42
   \<and> v_anim_end_value (fst (snd (handle_wheel_event init_controller init_model
         (add_sequence_item (init_view 0.5 18 500) (replicate 1000 (CHR ''A'')))
         \<lparr> ev_ctrl_modifier = True, ev_angle_delta_y = - 120, ev_pos_x = 100 \<rparr>))) = Some 0.42
   \<and> c_wheel_zoom_streak_len (fst (handle_wheel_event init_controller init_model
         (add_sequence_item (init_view 0.5 18 500) (replicate 1000 (CHR ''A'')))
         \<lparr> ev_ctrl_modifier = True, ev_angle_delta_y = - 120, ev_pos_x = 100 \<rparr>)) = 1"
proof -
  define ev where "ev = \<lparr> ev_ctrl_modifier = True, ev_angle_delta_y = - 120, ev_pos_x = 100 \<rparr>"
  define v where "v = add_sequence_item (init_view 0.5 (real_of_int 18) 500) (replicate 1000 (CHR ''A''))"
  have v': "add_sequence_item (init_view 0.5 18 500) (replicate 1000 (CHR ''A'')) = v"
    by (simp add: v_def)
  note f = add_sequence_item_init_view[where cw = "0.5" and h = 18 and vp = 500
      and s = "replicate 1000 (CHR ''A'')", folded v_def]
  have h1: "ev_ctrl_modifier ev" and h2: "ev_angle_delta_y ev \<noteq> 0" by (simp_all add: ev_def)
  have h3: "v_sequence_items v \<noteq> []" by (simp add: f(1))
  have h4: "0 < v_viewport_width v" by (simp add: f(3))
  have h5: "0 < v_max_sequence_length v" by (simp add: f(2))
  have h6: "0 < effective_char_width v" by (simp add: f(10))
  have mn: "compute_min_char_width v = 0.42"
    by (simp add: compute_min_char_width_formula[OF h3 h5 h4] f)
  have d: "ev_angle_delta_y ev = - 120" by (simp add: ev_def)
  have c: "c_wheel_zoom_streak_dir init_controller = None"
    "c_wheel_zoom_streak_len init_controller = 0"
    by (simp_all add: init_controller_def)
  have "v_anim_end_value (fst (snd (handle_wheel_event init_controller init_model v ev))) = Some 0.42
      \<and> c_wheel_zoom_streak_len (fst (handle_wheel_event init_controller init_model v ev)) = 1"
    using wheel_zoom_target[OF h1 h2 h3 h4 h5 h6, of init_controller init_model]
    unfolding Let_def d c f by simp
  with h1 h2 h3 h4 h5 h6 mn show ?thesis
    unfolding v' ev_def[symmetric] by simp
qed


section \<open>Re-centring on the zoom pivot\<close>









lemma anim_tick_running:
  assumes run: "v_anim_running v"
    and s: "v_anim_start_value v = Some s" and e: "v_anim_end_value v = Some e"
    and d: "v_anim_duration v = d" and dpos: "0 < d" and t0: "0 \<le> t" and td: "t \<le> d"
    and x: "s + (e - s) * out_cubic (real_of_int t / real_of_int d) = x"
    and cur: "v_anim_current_value v \<noteq> Some x"
  shows "anim_tick v t =
     (if t = d then (zoom_animation_frame (v\<lparr> v_anim_current_time := t \<rparr>) x)
                       \<lparr> v_anim_running := False \<rparr>
      else zoom_animation_frame (v\<lparr> v_anim_current_time := t \<rparr>) x)"
proof -
  define u where "u = v\<lparr> v_anim_current_time := t \<rparr>"
  have us: "v_anim_start_value u = Some s" and ue: "v_anim_end_value u = Some e"
    and ud: "v_anim_duration u = d" and uc: "v_anim_current_value u \<noteq> Some x"
    and ut: "v_anim_current_time u = t"
    using s e d cur by (simp_all add: u_def)
  have pr: "anim_progress u = out_cubic (real_of_int t / real_of_int d)"
    unfolding anim_progress_def ud ut using dpos by simp
  have rc: "anim_recalculate u = zoom_animation_frame u x"
    unfolding anim_recalculate_complete[OF us ue] pr x using uc by simp
  have m: "min (v_anim_duration v) (max t 0) = t" using t0 td d by simp
  have du: "v_anim_duration (zoom_animation_frame u x) = d"
    unfolding zoom_animation_frame_fields by (rule ud)
  show ?thesis
    unfolding anim_tick_def Let_def m u_def[symmetric] rc du using run by simp
qed

lemma anim_tick_last_frame:
  assumes run: "v_anim_running v"
    and s: "v_anim_start_value v = Some s" and e: "v_anim_end_value v = Some e"
    and dpos: "0 < v_anim_duration v" and cur: "v_anim_current_value v \<noteq> Some e"
  shows "anim_tick v (v_anim_duration v) =
     (zoom_animation_frame (v\<lparr> v_anim_current_time := v_anim_duration v \<rparr>) e)
       \<lparr> v_anim_running := False \<rparr>"
proof -
  have x: "s + (e - s) * out_cubic (real_of_int (v_anim_duration v) / real_of_int (v_anim_duration v)) = e"
    using dpos by (simp add: out_cubic_def)
  show ?thesis
    using anim_tick_running[OF run s e refl dpos _ _ x cur] dpos by simp
qed













end
